theory Spec2Isabelle
  imports Main "HOL-Library.AList"
begin

section \<open>ScrapeServ: the request gatekeeper and the streamed response of \<open>scraper/app.py\<close>\<close>

text \<open>
  The development follows \<open>src/scraper/app.py\<close> function by function. Python strings
  are \<open>string\<close> (lists of 8-bit characters), Python integers are \<open>int\<close>, a raised
  exception is the \<open>Inl\<close> branch of a sum, and everything the handler does to the
  outside (DNS lookups, the worker dispatch, the temporary files) is threaded through an
  explicit \<open>world\<close>. Diagnostics printed to \<open>stderr\<close> change nothing the handler
  returns or stores and are left out.
\<close>

subsection \<open>Python values used by the module\<close>

datatype exn =
    ValueError | UnicodeError | Gaierror | IndexError | KeyError | TypeError
  | FileNotFoundError | PermissionError | UnidentifiedImageError
  | WorkerError | GeneratorExit

text \<open>\<open>except Exception\<close> catches every exception class above except \<open>GeneratorExit\<close>,
  which derives from \<open>BaseException\<close> only.\<close>

fun is_Exception :: "exn \<Rightarrow> bool" where
  "is_Exception GeneratorExit = False"
| "is_Exception _ = True"

definition CRLF :: string where
  "CRLF = [CHR 0x0D, CHR 0x0A]"

definition DQ :: string where
  "DQ = [CHR 0x22]"

text \<open>\<open>str.lower\<close> and \<open>str.upper\<close> on the ASCII letters; the schemes \<open>urlparse\<close> returns and
  the image formats of the handler contain no other letters.\<close>

definition lower_char :: "char \<Rightarrow> char" where
  "lower_char c =
     (case map_of (zip ''ABCDEFGHIJKLMNOPQRSTUVWXYZ'' ''abcdefghijklmnopqrstuvwxyz'') c of
        None \<Rightarrow> c | Some d \<Rightarrow> d)"

definition upper_char :: "char \<Rightarrow> char" where
  "upper_char c =
     (case map_of (zip ''abcdefghijklmnopqrstuvwxyz'' ''ABCDEFGHIJKLMNOPQRSTUVWXYZ'') c of
        None \<Rightarrow> c | Some d \<Rightarrow> d)"

definition str_lower :: "string \<Rightarrow> string" where
  "str_lower s = map lower_char s"

definition str_upper :: "string \<Rightarrow> string" where
  "str_upper s = map upper_char s"

text \<open>\<open>str.strip()\<close>: the ASCII characters Python counts as whitespace
  (\<open>\t \n \v \f \r\<close>, \<open>0x1c\<close> to \<open>0x1f\<close>, and the space).\<close>

definition is_space :: "char \<Rightarrow> bool" where
  "is_space c =
     (c \<in> set [CHR 0x09, CHR 0x0A, CHR 0x0B, CHR 0x0C, CHR 0x0D,
                CHR 0x1C, CHR 0x1D, CHR 0x1E, CHR 0x1F, CHR 0x20])"

definition str_strip :: "string \<Rightarrow> string" where
  "str_strip s = rev (dropWhile is_space (rev (dropWhile is_space s)))"

text \<open>\<open>s.split(c)\<close> for a one-character separator: never empty, \<open>''''.split(c) = ['''']\<close>.\<close>

fun str_split :: "char \<Rightarrow> string \<Rightarrow> string list" where
  "str_split c [] = [[]]"
| "str_split c (x # xs) =
     (if x = c then [] # str_split c xs
      else (case str_split c xs of [] \<Rightarrow> [[x]] | y # ys \<Rightarrow> (x # y) # ys))"

definition startswith :: "string \<Rightarrow> string \<Rightarrow> bool" where
  "startswith s p = (take (length p) s = p)"

text \<open>\<open>xs[i]\<close> for a non-negative index: \<open>IndexError\<close> out of range.\<close>

definition item :: "'a list \<Rightarrow> nat \<Rightarrow> exn + 'a" where
  "item xs i = (if i < length xs then Inr (xs ! i) else Inl IndexError)"

text \<open>\<open>str(n)\<close> for an integer, used by the f-strings of the error messages.\<close>

fun str_nat :: "nat \<Rightarrow> string" where
  "str_nat n =
     (if n < 10 then [''0123456789'' ! n]
      else str_nat (n div 10) @ [''0123456789'' ! (n mod 10)])"

definition str_int :: "int \<Rightarrow> string" where
  "str_int i = (if i < 0 then CHR ''-'' # str_nat (nat (- i)) else str_nat (nat i))"

subsection \<open>The libraries and the worker module, as parameters\<close>

text \<open>What \<open>urlparse\<close> returns; the handler reads \<open>scheme\<close> and \<open>netloc\<close> only.\<close>

record parse_result =
  scheme :: string
  netloc :: string

text \<open>An \<open>ipaddress\<close> object; the handler reads these five properties.\<close>

record ip_obj =
  is_loopback :: bool
  is_private :: bool
  is_reserved :: bool
  is_link_local :: bool
  is_multicast :: bool

text \<open>One entry of \<open>socket.getaddrinfo\<close>: \<open>(family, type, proto, canonname, sockaddr)\<close>; the
  handler reads \<open>addrinfo[4][0]\<close>, the address string of \<open>sockaddr\<close>.\<close>

type_synonym addrinfo = "nat \<times> nat \<times> nat \<times> string \<times> (string \<times> nat)"

definition sockaddr_host :: "addrinfo \<Rightarrow> string" where
  "sockaddr_host a = fst (snd (snd (snd (snd a))))"

text \<open>A decoded \<open>PIL\<close> image, and the blank image \<open>Image.new\<close> makes together with what was
  pasted on it: each entry of \<open>pastes\<close> is an image and the \<open>(x, y)\<close> of its upper left corner.\<close>

record image =
  width :: int
  height :: int
  pixels :: string

record canvas =
  cwidth :: int
  cheight :: int
  pastes :: "(image \<times> (int \<times> int)) list"

text \<open>The five values a scrape task returns.\<close>

record task_result =
  status :: int
  headers :: "(string \<times> string) list"
  content_file :: "string option"
  screenshot_files :: "string list"
  metadata :: string

type_synonym files = "string \<rightharpoonup> string"

text \<open>
  \<open>env\<close> collects what the module imports and does not define: the constants of
  \<open>worker.py\<close> (the two-element \<open>*_BROWSER_DIM\<close> lists as pairs), the API keys read from the
  environment at start-up, and the library functions. A library function that can raise
  returns a sum or an option: \<open>urlparse\<close> raises \<open>ValueError\<close> on a malformed bracketed
  host, \<open>getaddrinfo\<close> raises \<open>socket.gaierror\<close> when the name does not resolve (and
  \<open>UnicodeError\<close> on a label it cannot encode), \<open>ip_address\<close> raises \<open>ValueError\<close>
  (\<open>None\<close>), \<open>Image.open\<close> fails on bytes that are no image (\<open>None\<close>). The worker
  takes the files present at the dispatch and returns its result, or the exception that
  \<open>.get(timeout=60)\<close> raises, together with the files it leaves behind.
\<close>

record env =
  SCRAPER_API_KEYS :: "string list"
  MAX_WAIT :: int
  DEFAULT_WAIT :: int
  MAX_SCREENSHOTS :: int
  DEFAULT_SCREENSHOTS :: int
  MAX_BROWSER_DIM :: "int \<times> int"
  MIN_BROWSER_DIM :: "int \<times> int"
  DEFAULT_BROWSER_DIM :: "int list"
  urlparse :: "string \<Rightarrow> exn + parse_result"
  getaddrinfo :: "string \<Rightarrow> exn + addrinfo list"
  ip_address :: "string \<Rightarrow> ip_obj option"
  guess_all_extensions :: "string \<Rightarrow> string list"
  image_decode :: "string \<Rightarrow> image option"
  image_encode :: "string \<Rightarrow> canvas \<Rightarrow> string"
  mkstemp :: "files \<Rightarrow> string \<Rightarrow> string"
  json_dumps :: "int \<Rightarrow> (string \<times> string) list \<Rightarrow> string \<Rightarrow> string"
  scrape_task :: "string \<Rightarrow> int \<Rightarrow> string \<Rightarrow> int \<Rightarrow> int list \<Rightarrow> files \<Rightarrow> (exn + task_result) \<times> files"

subsection \<open>The world of one request\<close>

datatype event =
    Resolve string
  | Dispatch string int string int "int list"
  | Unlink string

text \<open>
  \<open>files\<close> maps the path of every existing file to its bytes, \<open>locked\<close> holds the paths
  \<open>os.unlink\<close> is refused on, and \<open>trace\<close> records, oldest first, each name resolution,
  each dispatch to the worker and each file removed.
\<close>

record world =
  files :: files
  locked :: "string set"
  trace :: "event list"

definition emit :: "event \<Rightarrow> world \<Rightarrow> world" where
  "emit e w = w\<lparr>trace := trace w @ [e]\<rparr>"

definition events_since :: "world \<Rightarrow> world \<Rightarrow> event list" where
  "events_since w w' = drop (length (trace w)) (trace w')"

subsection \<open>\<open>is_private_ip\<close> and \<open>url_is_safe\<close>\<close>

definition is_private_ip :: "env \<Rightarrow> string \<Rightarrow> bool" where
  "is_private_ip E ip_str =
     (case ip_address E ip_str of
        None \<Rightarrow> True
      | Some ip \<Rightarrow> is_loopback ip \<or> is_private ip \<or> is_reserved ip \<or> is_link_local ip \<or> is_multicast ip)"

text \<open>The loop over the resolved addresses: \<open>False\<close> at the first address
  \<open>is_private_ip\<close> flags, \<open>True\<close> when the list is exhausted.\<close>

fun check_addrs :: "env \<Rightarrow> addrinfo list \<Rightarrow> bool" where
  "check_addrs E [] = True"
| "check_addrs E (a # as) = (if is_private_ip E (sockaddr_host a) then False else check_addrs E as)"

definition default_schemes :: "string set" where
  "default_schemes = {''http'', ''https'', ''file''}"

definition url_is_safe :: "env \<Rightarrow> string \<Rightarrow> string set option \<Rightarrow> world \<Rightarrow> (exn + bool) \<times> world" where
  "url_is_safe E u allowed w =
     (let allowed_schemes = (case allowed of None \<Rightarrow> default_schemes | Some S \<Rightarrow> S) in
      case urlparse E (str_strip u) of
        Inl e \<Rightarrow> (Inl e, w)
      | Inr parsed \<Rightarrow>
          let sch = str_lower (scheme parsed) in
          if sch = ''file'' then (Inr True, w)
          else
            let host = hd (str_split (CHR '':'') (netloc parsed)) in
            if sch \<notin> allowed_schemes then (Inr False, w)
            else
              let w1 = emit (Resolve host) w in
              (case getaddrinfo E host of
                 Inl e \<Rightarrow> (if e = Gaierror then (Inr False, w1) else (Inl e, w1))
               | Inr addrs \<Rightarrow> (Inr (check_addrs E addrs), w1)))"

subsection \<open>\<open>get_ext_from_content_type\<close>\<close>

definition get_ext_from_content_type :: "env \<Rightarrow> string \<Rightarrow> string" where
  "get_ext_from_content_type E content_type =
     (let mime_type = str_strip (hd (str_split (CHR '';'') content_type));
          extensions = guess_all_extensions E mime_type
      in if extensions \<noteq> [] then hd extensions else [])"

subsection \<open>\<open>stack_images_vertically\<close>\<close>

definition Image_open :: "env \<Rightarrow> world \<Rightarrow> string \<Rightarrow> exn + image" where
  "Image_open E w img_file =
     (case files w img_file of
        None \<Rightarrow> Inl FileNotFoundError
      | Some bytes \<Rightarrow>
          (case image_decode E bytes of None \<Rightarrow> Inl UnidentifiedImageError | Some img \<Rightarrow> Inr img))"

text \<open>The list comprehension \<open>[Image.open(img_file) for img_file in image_files]\<close>: the first
  file that does not open raises.\<close>

fun open_all :: "env \<Rightarrow> world \<Rightarrow> string list \<Rightarrow> exn + image list" where
  "open_all E w [] = Inr []"
| "open_all E w (img_file # rest) =
     (case Image_open E w img_file of
        Inl e \<Rightarrow> Inl e
      | Inr img \<Rightarrow> (case open_all E w rest of Inl e \<Rightarrow> Inl e | Inr imgs \<Rightarrow> Inr (img # imgs)))"

text \<open>\<open>max(...)\<close> over a sequence: \<open>ValueError\<close> on an empty one.\<close>

fun py_max :: "int list \<Rightarrow> exn + int" where
  "py_max [] = Inl ValueError"
| "py_max (x # xs) = Inr (fold max xs x)"

text \<open>The paste loop: \<open>y_offset\<close> starts at 0 and grows by the height of each image pasted.\<close>

fun paste_all :: "canvas \<Rightarrow> int \<Rightarrow> image list \<Rightarrow> canvas" where
  "paste_all stacked_image y_offset [] = stacked_image"
| "paste_all stacked_image y_offset (img # imgs) =
     paste_all (stacked_image\<lparr>pastes := pastes stacked_image @ [(img, (0, y_offset))]\<rparr>)
       (y_offset + height img) imgs"

definition stack_images_vertically ::
  "env \<Rightarrow> string list \<Rightarrow> string \<Rightarrow> world \<Rightarrow> (exn + string option) \<times> world" where
  "stack_images_vertically E image_files output_format w =
     (if image_files = [] then (Inr None, w)
      else if length image_files = 1 then (Inr (Some (hd image_files)), w)
      else
        (case open_all E w image_files of
           Inl e \<Rightarrow> (Inl e, w)
         | Inr images \<Rightarrow>
             (case py_max (map width images) of
                Inl e \<Rightarrow> (Inl e, w)
              | Inr max_width \<Rightarrow>
                  let total_height = sum_list (map height images);
                      blank = \<lparr>cwidth = max_width, cheight = total_height, pastes = []\<rparr>;
                      stacked_image = paste_all blank 0 images;
                      output_path = mkstemp E (files w) (''.'' @ output_format);
                      w1 = w\<lparr>files := (files w)(output_path \<mapsto> [])\<rparr>;
                      w2 = w1\<lparr>files := (files w1)(output_path \<mapsto>
                              image_encode E (str_upper output_format) stacked_image)\<rparr>
                  in (Inr (Some output_path), w2))))"

subsection \<open>The \<open>/scrape\<close> handler\<close>

text \<open>
  The request as the handler reads it: the two headers, and the four keys of the JSON
  body at the types the handler computes with (\<open>None\<close> is a key or header that is not
  there). \<open>browser_dim\<close> is a JSON list of any length.
\<close>

record request =
  authorization :: "string option"
  accept :: "string option"
  url :: "string option"
  wait :: "int option"
  max_screenshots :: "int option"
  browser_dim :: "int list option"

text \<open>The variables the nested generator \<open>stream\<close> closes over; \<open>task\<close> holds the worker's
  five values, the header names already in lower case.\<close>

record closure =
  boundary :: string
  task :: task_result
  stacked_screenshot :: "string option"
  image_format :: string
  cleanup_files :: "string list"

datatype body = Error_json string | Stream closure

record response =
  status_code :: nat
  mimetype :: string
  body :: body

text \<open>\<open>return jsonify({'error': msg}), code\<close>\<close>

definition jsonify :: "string \<Rightarrow> nat \<Rightarrow> response" where
  "jsonify msg code = \<lparr>status_code = code, mimetype = ''application/json'', body = Error_json msg\<rparr>"

text \<open>Truth value of a path that may be \<open>None\<close>: \<open>None\<close> and the empty string are false.\<close>

fun truthy :: "string option \<Rightarrow> bool" where
  "truthy None = False"
| "truthy (Some s) = (s \<noteq> [])"

fun str_join :: "string \<Rightarrow> string list \<Rightarrow> string" where
  "str_join sep [] = []"
| "str_join sep [x] = x"
| "str_join sep (x # y # ys) = x @ sep @ str_join sep (y # ys)"

text \<open>Lines 151 to 161: the bearer token, checked only when some API key is configured.
  \<open>Some\<close> is the response the handler returns at once.\<close>

definition check_auth :: "env \<Rightarrow> request \<Rightarrow> exn + response option" where
  "check_auth E r =
     (if SCRAPER_API_KEYS E \<noteq> [] then
        (case authorization r of
           None \<Rightarrow> Inr (Some (jsonify ''Authorization header is missing'' 401))
         | Some auth_header \<Rightarrow>
             if \<not> startswith auth_header ''Bearer ''
             then Inr (Some (jsonify ''Invalid authorization header format'' 401))
             else
               (case item (str_split (CHR '' '') auth_header) 1 of
                  Inl e \<Rightarrow> Inl e
                | Inr user_key \<Rightarrow>
                    if user_key \<notin> set (SCRAPER_API_KEYS E)
                    then Inr (Some (jsonify ''Invalid API key'' 401))
                    else Inr None))
      else Inr None)"

definition axis :: "int \<times> int \<Rightarrow> nat \<Rightarrow> int" where
  "axis d i = (if i = 0 then fst d else snd d)"

text \<open>One round of the loop of lines 179 to 183, for axis \<open>i\<close> called \<open>name\<close>.\<close>

definition check_dim :: "env \<Rightarrow> int list \<Rightarrow> nat \<Rightarrow> string \<Rightarrow> exn + response option" where
  "check_dim E dim i name =
     (case item dim i of
        Inl e \<Rightarrow> Inl e
      | Inr d \<Rightarrow>
          if d > axis (MAX_BROWSER_DIM E) i \<or> d < axis (MIN_BROWSER_DIM E) i
          then Inr (Some (jsonify
                 (''Value '' @ str_int d @ '' for browser '' @ name @ '' is unacceptable; must be between ''
                    @ str_int (axis (MIN_BROWSER_DIM E) i) @ '' and '' @ str_int (axis (MAX_BROWSER_DIM E) i)) 400))
          else Inr None)"

text \<open>Lines 174 to 188: the bounds on \<open>wait\<close>, on the two axes of \<open>browser_dim\<close> and on
  \<open>max_screenshots\<close>, in this order.\<close>

definition check_bounds :: "env \<Rightarrow> int \<Rightarrow> int list \<Rightarrow> int \<Rightarrow> exn + response option" where
  "check_bounds E wt dim n_screenshots =
     (if wt < 0 \<or> wt > MAX_WAIT E
      then Inr (Some (jsonify
             (''Value '' @ str_int wt @ '' for '' @ DQ @ ''wait'' @ DQ @ '' is unacceptable; must be between 0 and ''
                @ str_int (MAX_WAIT E)) 400))
      else
        (case check_dim E dim 0 ''width'' of
           Inl e \<Rightarrow> Inl e
         | Inr (Some resp) \<Rightarrow> Inr (Some resp)
         | Inr None \<Rightarrow>
             (case check_dim E dim 1 ''height'' of
                Inl e \<Rightarrow> Inl e
              | Inr (Some resp) \<Rightarrow> Inr (Some resp)
              | Inr None \<Rightarrow>
                  if n_screenshots > MAX_SCREENSHOTS E
                  then Inr (Some (jsonify
                         (''Value '' @ str_int n_screenshots @ '' for max_screenshots is unacceptable; must be below ''
                            @ str_int (MAX_SCREENSHOTS E)) 400))
                  else Inr None)))"

definition accepted_formats :: "(string \<times> string) list" where
  "accepted_formats =
     [(''image/webp'', ''webp''), (''image/png'', ''png''), (''image/jpeg'', ''jpeg''),
      (''image/*'', ''jpeg''), (''*/*'', ''jpeg'')]"

text \<open>Lines 190 to 205: the image format from the \<open>Accept\<close> header, \<open>image/jpeg\<close> when the
  header is absent; \<open>Inl\<close> is the 406 response.\<close>

definition negotiate_format :: "request \<Rightarrow> response + string" where
  "negotiate_format r =
     (let accept_header = (case accept r of None \<Rightarrow> ''image/jpeg'' | Some a \<Rightarrow> a);
          unsupported = jsonify (''Unsupported image format in Accept header ('' @ accept_header
                 @ ''). Supported Accept header values are: ''
                 @ str_join '', '' (map fst accepted_formats)) 406
      in case map_of accepted_formats accept_header of
           None \<Rightarrow> Inl unsupported
         | Some fmt \<Rightarrow> if fmt = [] then Inl unsupported else Inr fmt)"

text \<open>The dict comprehension of line 212: a later header whose lower-cased name is already
  there replaces the value and keeps the place.\<close>

definition lower_keys :: "(string \<times> string) list \<Rightarrow> (string \<times> string) list" where
  "lower_keys hs = fold (\<lambda>(k, v) d. AList.update (str_lower k) v d) hs []"

definition the_boundary :: string where
  "the_boundary = ''Boundary712sAM12MVaJff23NXJ''"

text \<open>Lines 219 to 306: what the handler does with the worker's five values.\<close>

definition respond :: "env \<Rightarrow> task_result \<Rightarrow> string \<Rightarrow> world \<Rightarrow> (exn + response) \<times> world" where
  "respond E t fmt w =
     (if truthy (content_file t) then
        (case (if screenshot_files t \<noteq> []
               then stack_images_vertically E (screenshot_files t) fmt w
               else (Inr None, w)) of
           (Inl e, w1) \<Rightarrow> (Inl e, w1)
         | (Inr stacked, w1) \<Rightarrow>
             let to_clean = (if truthy (content_file t) then [the (content_file t)] else [])
                          @ (if truthy stacked then [the stacked] else []);
                 c = \<lparr>boundary = the_boundary, task = t, stacked_screenshot = stacked,
                      image_format = fmt, cleanup_files = to_clean\<rparr>
             in (Inr \<lparr>status_code = 200,
                      mimetype = ''multipart/mixed; boundary='' @ the_boundary,
                      body = Stream c\<rparr>, w1))
      else (Inr (jsonify ''This is a generic error message; sorry about that.'' 500), w))"

text \<open>Lines 207 to 217: the dispatch to the worker pool. \<open>except Exception\<close> turns what the
  worker or the wait for it raised into the 500 response.\<close>

definition dispatch ::
  "env \<Rightarrow> string \<Rightarrow> int \<Rightarrow> string \<Rightarrow> int \<Rightarrow> int list \<Rightarrow> world \<Rightarrow> (exn + response) \<times> world" where
  "dispatch E u wt fmt n_screenshots dim w =
     (let w2 = emit (Dispatch u wt fmt n_screenshots dim) w;
          (res, fs) = scrape_task E u wt fmt n_screenshots dim (files w2);
          w3 = w2\<lparr>files := fs\<rparr>
      in
      case res of
        Inl e \<Rightarrow>
          if is_Exception e
          then (Inr (jsonify ''Scraping process failed'' 500), w3)
          else (Inl e, w3)
      | Inr t \<Rightarrow> respond E (t\<lparr>headers := lower_keys (headers t)\<rparr>) fmt w3)"

definition scrape :: "env \<Rightarrow> request \<Rightarrow> world \<Rightarrow> (exn + response) \<times> world" where
  "scrape E r w =
     (case check_auth E r of
        Inl e \<Rightarrow> (Inl e, w)
      | Inr (Some resp) \<Rightarrow> (Inr resp, w)
      | Inr None \<Rightarrow>
          if \<not> truthy (url r) then (Inr (jsonify ''No URL provided'' 400), w)
          else
            let u = the (url r) in
            (case url_is_safe E u None w of
               (Inl e, w1) \<Rightarrow> (Inl e, w1)
             | (Inr safe, w1) \<Rightarrow>
                 if \<not> safe then (Inr (jsonify ''URL was judged to be unsafe'' 400), w1)
                 else
                   let wt = (case wait r of None \<Rightarrow> DEFAULT_WAIT E | Some x \<Rightarrow> x);
                       n_screenshots = (case max_screenshots r of None \<Rightarrow> DEFAULT_SCREENSHOTS E | Some x \<Rightarrow> x);
                       dim = (case browser_dim r of None \<Rightarrow> DEFAULT_BROWSER_DIM E | Some x \<Rightarrow> x)
                   in
                   (case check_bounds E wt dim n_screenshots of
                      Inl e \<Rightarrow> (Inl e, w1)
                    | Inr (Some resp) \<Rightarrow> (Inr resp, w1)
                    | Inr None \<Rightarrow>
                        (case negotiate_format r of
                           Inl resp \<Rightarrow> (Inr resp, w1)
                         | Inr fmt \<Rightarrow> dispatch E u wt fmt n_screenshots dim w1))))"

text \<open>The HTTP status of what the handler returned; \<open>None\<close> when an exception left it.\<close>

definition returned_status :: "(exn + response) \<times> world \<Rightarrow> nat option" where
  "returned_status out = (case fst out of Inl e \<Rightarrow> None | Inr resp \<Rightarrow> Some (status_code resp))"

subsection \<open>The generator \<open>stream\<close>\<close>

definition os_path_exists :: "world \<Rightarrow> string \<Rightarrow> bool" where
  "os_path_exists w p = (files w p \<noteq> None)"

text \<open>\<open>os.unlink\<close>: removes the file and records it; raises when there is no such file or
  when the removal is refused.\<close>

definition os_unlink :: "string \<Rightarrow> world \<Rightarrow> (exn + unit) \<times> world" where
  "os_unlink p w =
     (if files w p = None then (Inl FileNotFoundError, w)
      else if p \<in> locked w then (Inl PermissionError, w)
      else (Inr (), emit (Unlink p) (w\<lparr>files := (files w)(p := None)\<rparr>)))"

text \<open>The statement both loops run for a path:
  \<open>if os.path.exists(file_path): os.unlink(file_path)\<close>.\<close>

definition unlink_if_exists :: "string \<Rightarrow> world \<Rightarrow> (exn + unit) \<times> world" where
  "unlink_if_exists file_path w =
     (if os_path_exists w file_path then os_unlink file_path w else (Inr (), w))"

text \<open>Lines 280 to 282, inside the \<open>try\<close>: the first removal that raises ends the loop.\<close>

fun unlink_screenshots :: "string list \<Rightarrow> world \<Rightarrow> (exn + unit) \<times> world" where
  "unlink_screenshots [] w = (Inr (), w)"
| "unlink_screenshots (file_path # rest) w =
     (case unlink_if_exists file_path w of
        (Inl e, w') \<Rightarrow> (Inl e, w')
      | (Inr u, w') \<Rightarrow> unlink_screenshots rest w')"

text \<open>Lines 288 to 293, the \<open>finally\<close>: each removal has its own \<open>try\<close>, whose
  \<open>except Exception\<close> prints what \<open>os.unlink\<close> raised (an \<open>OSError\<close> of some kind, so
  always caught) and goes on to the next path.\<close>

fun cleanup :: "string list \<Rightarrow> world \<Rightarrow> world" where
  "cleanup [] w = w"
| "cleanup (file_path # rest) w =
     (case unlink_if_exists file_path w of
        (Inl e, w') \<Rightarrow> cleanup rest w'
      | (Inr u, w') \<Rightarrow> cleanup rest w')"

text \<open>\<open>while chunk := content.read(n): yield chunk\<close> on a file holding \<open>bytes\<close>.\<close>

function read_chunks :: "nat \<Rightarrow> string \<Rightarrow> string list" where
  "read_chunks n bytes =
     (if n = 0 \<or> bytes = [] then [] else take n bytes # read_chunks n (drop n bytes))"
  by pat_completeness auto
termination
  by (relation "measure (\<lambda>(n, bytes). length bytes)") auto

text \<open>\<open>open(path, 'rb')\<close> followed by the read loop; \<open>open(None)\<close> is a \<open>TypeError\<close>.\<close>

definition read_file :: "files \<Rightarrow> string option \<Rightarrow> exn + string list" where
  "read_file fs path =
     (case path of
        None \<Rightarrow> Inl TypeError
      | Some p \<Rightarrow>
          (case fs p of None \<Rightarrow> Inl FileNotFoundError | Some bytes \<Rightarrow> Inr (read_chunks 4096 bytes)))"

text \<open>The three part headers and the final boundary, as the f-strings build them.\<close>

definition info_part_header :: "string \<Rightarrow> string" where
  "info_part_header b =
     (let filename = ''info.json'' in
      ''--'' @ b @ CRLF
      @ ''Content-Type: application/json'' @ CRLF
      @ ''Content-Disposition: attachment; name='' @ DQ @ filename @ DQ
        @ ''; filename='' @ DQ @ filename @ DQ @ CRLF @ CRLF)"

definition main_part_header :: "string \<Rightarrow> string \<Rightarrow> string \<Rightarrow> string" where
  "main_part_header b ext content_type =
     (let filename = ''main'' @ ext in
      CRLF @ ''--'' @ b @ CRLF
      @ ''Content-Disposition: attachment; name='' @ DQ @ filename @ DQ
        @ ''; filename='' @ DQ @ filename @ DQ @ CRLF
      @ ''Content-Transfer-Encoding: binary'' @ CRLF
      @ ''Content-Type: '' @ content_type @ CRLF @ CRLF)"

definition screenshot_part_header :: "string \<Rightarrow> string \<Rightarrow> string" where
  "screenshot_part_header b fmt =
     (let filename = ''screenshot.'' @ fmt in
      CRLF @ ''--'' @ b @ CRLF
      @ ''Content-Disposition: attachment; name='' @ DQ @ filename @ DQ
        @ ''; filename='' @ DQ @ filename @ DQ @ CRLF
      @ ''Content-Transfer-Encoding: binary'' @ CRLF
      @ ''Content-Type: image/'' @ fmt @ CRLF @ CRLF)"

definition final_boundary :: "string \<Rightarrow> string" where
  "final_boundary b = CRLF @ ''--'' @ b @ ''--'' @ CRLF"

text \<open>
  Lines 240 to 277: what the \<open>try\<close> block yields, in order, when it is driven as far as it
  goes, and the exception that stops it, if one does. Nothing in these lines changes a
  file, so the chunks are read from the files as they are when the stream starts.
\<close>

definition try_yields :: "env \<Rightarrow> closure \<Rightarrow> files \<Rightarrow> string list \<times> exn option" where
  "try_yields E c fs =
     (let t = task c;
          part1 = [info_part_header (boundary c), json_dumps E (status t) (headers t) (metadata t)]
      in
      case map_of (headers t) ''content-type'' of
        None \<Rightarrow> (part1, Some KeyError)
      | Some content_type \<Rightarrow>
          let ext = get_ext_from_content_type E content_type;
              part2 = [main_part_header (boundary c) ext content_type]
          in
          (case read_file fs (content_file t) of
             Inl e \<Rightarrow> (part1 @ part2, Some e)
           | Inr chunks \<Rightarrow>
               if truthy (stacked_screenshot c) then
                 (let part3 = [screenshot_part_header (boundary c) (image_format c)] in
                  case read_file fs (stacked_screenshot c) of
                    Inl e \<Rightarrow> (part1 @ part2 @ chunks @ part3, Some e)
                  | Inr shot \<Rightarrow>
                      (part1 @ part2 @ chunks @ part3 @ shot @ [final_boundary (boundary c)], None))
               else (part1 @ part2 @ chunks @ [final_boundary (boundary c)], None)))"

text \<open>
  What one run of the generator leaves: the chunks the consumer received, and the
  exception that reaches the consumer, if any.
\<close>

record stream_result =
  emitted :: "string list"
  escaped :: "exn option"

text \<open>
  The generator, driven by a consumer that asks for at most \<open>pulls\<close> chunks and then closes
  it.
  \<^item> With no pull the body never starts, and neither does its \<open>finally\<close>.
  \<^item> A consumer that stops at a chunk it was given raises \<open>GeneratorExit\<close> at that
    \<open>yield\<close>.
  \<^item> A consumer that asks for more than the \<open>try\<close> block yields makes it run to its end:
    to the exception that stops it, or through the removal of the screenshot files.
  Then \<open>except Exception\<close> absorbs what it catches, the \<open>finally\<close> runs \<open>cleanup\<close>, and
  \<open>close()\<close> absorbs a \<open>GeneratorExit\<close>.
\<close>

definition stream :: "env \<Rightarrow> closure \<Rightarrow> nat \<Rightarrow> world \<Rightarrow> stream_result \<times> world" where
  "stream E c pulls w =
     (if pulls = 0 then (\<lparr>emitted = [], escaped = None\<rparr>, w)
      else
        let (ys, err) = try_yields E c (files w);
            (out, raised, w1) =
              (if pulls \<le> length ys then (take pulls ys, Some GeneratorExit, w)
               else
                 (case err of
                    Some e \<Rightarrow> (ys, Some e, w)
                  | None \<Rightarrow>
                      (case unlink_screenshots (screenshot_files (task c)) w of
                         (Inl e, w') \<Rightarrow> (ys, Some e, w')
                       | (Inr u, w') \<Rightarrow> (ys, None, w'))));
            pending = (case raised of
                         None \<Rightarrow> None
                       | Some e \<Rightarrow> if is_Exception e then None else Some e);
            w2 = cleanup (cleanup_files c) w1;
            reaches = (case pending of
                         None \<Rightarrow> None
                       | Some e \<Rightarrow> if e = GeneratorExit then None else Some e)
        in (\<lparr>emitted = out, escaped = reaches\<rparr>, w2))"

text \<open>The paths the events of a trace removed, oldest first.\<close>

fun unlinked :: "event list \<Rightarrow> string list" where
  "unlinked [] = []"
| "unlinked (Unlink p # es) = p # unlinked es"
| "unlinked (e # es) = unlinked es"

subsection \<open>A concrete deployment, for evaluating the definitions\<close>

text \<open>
  One host, \<open>example.com\<close>, resolves to a public address and \<open>intranet.test\<close> to a
  loopback one; no API key is configured; the worker fetches the page into
  \<open>/tmp/content\<close>, takes two screenshots and reports the URL as the metadata.
\<close>

definition public_ip :: ip_obj where
  "public_ip = \<lparr>is_loopback = False, is_private = False, is_reserved = False,
                 is_link_local = False, is_multicast = False\<rparr>"

definition demo_urlparse :: "string \<Rightarrow> exn + parse_result" where
  "demo_urlparse u =
     (if u = ''http://example.com/'' then Inr \<lparr>scheme = ''http'', netloc = ''example.com''\<rparr>
      else if u = ''https://example.org:8443/a'' then Inr \<lparr>scheme = ''https'', netloc = ''example.org:8443''\<rparr>
      else if u = ''http://intranet.test/'' then Inr \<lparr>scheme = ''http'', netloc = ''intranet.test''\<rparr>
      else if u = ''http://nowhere.invalid/'' then Inr \<lparr>scheme = ''http'', netloc = ''nowhere.invalid''\<rparr>
      else if u = ''FILE:///etc/passwd'' then Inr \<lparr>scheme = ''file'', netloc = []\<rparr>
      else Inl ValueError)"

definition demo_getaddrinfo :: "string \<Rightarrow> exn + addrinfo list" where
  "demo_getaddrinfo host =
     (if host = ''example.com'' then Inr [(2, 1, 6, [], (''93.184.216.34'', 0))]
      else if host = ''example.org''
        then Inr [(2, 1, 6, [], (''93.184.216.34'', 0)), (10, 1, 6, [], (''not-an-address'', 0))]
      else if host = ''intranet.test'' then Inr [(2, 1, 6, [], (''127.0.0.1'', 0))]
      else Inl Gaierror)"

definition demo_ip_address :: "string \<Rightarrow> ip_obj option" where
  "demo_ip_address a =
     (if a = ''93.184.216.34'' then Some public_ip
      else if a = ''127.0.0.1'' then Some (public_ip\<lparr>is_loopback := True, is_private := True\<rparr>)
      else None)"

definition demo_image_decode :: "string \<Rightarrow> image option" where
  "demo_image_decode bytes =
     (if bytes = ''IMG-A'' then Some \<lparr>width = 100, height = 50, pixels = ''a''\<rparr>
      else if bytes = ''IMG-B'' then Some \<lparr>width = 200, height = 60, pixels = ''b''\<rparr>
      else if bytes = ''IMG-C'' then Some \<lparr>width = 150, height = 70, pixels = ''c''\<rparr>
      else None)"

definition demo_image_encode :: "string \<Rightarrow> canvas \<Rightarrow> string" where
  "demo_image_encode fmt cv =
     fmt @ '' '' @ str_int (cwidth cv) @ ''x'' @ str_int (cheight cv)
       @ concat (map (\<lambda>(img, (x, y)). '' '' @ pixels img @ ''@'' @ str_int y) (pastes cv))"

definition demo_page :: "string \<Rightarrow> task_result" where
  "demo_page u = \<lparr>status = 200, headers = [(''Content-Type'', ''text/html'')],
                   content_file = Some ''/tmp/content'',
                   screenshot_files = [''/tmp/s1'', ''/tmp/s2''], metadata = u\<rparr>"

definition demo_scrape_task ::
  "string \<Rightarrow> int \<Rightarrow> string \<Rightarrow> int \<Rightarrow> int list \<Rightarrow> files \<Rightarrow> (exn + task_result) \<times> files" where
  "demo_scrape_task u wt fmt n dim fs =
     (Inr (demo_page u),
      fs(''/tmp/content'' \<mapsto> ''<html></html>'', ''/tmp/s1'' \<mapsto> ''IMG-A'', ''/tmp/s2'' \<mapsto> ''IMG-B''))"

definition demo_env :: env where
  "demo_env =
     \<lparr>SCRAPER_API_KEYS = [],
      MAX_WAIT = 10, DEFAULT_WAIT = 1,
      MAX_SCREENSHOTS = 5, DEFAULT_SCREENSHOTS = 5,
      MAX_BROWSER_DIM = (2400, 4000), MIN_BROWSER_DIM = (100, 100),
      DEFAULT_BROWSER_DIM = [1280, 2000],
      urlparse = demo_urlparse,
      getaddrinfo = demo_getaddrinfo,
      ip_address = demo_ip_address,
      guess_all_extensions = (\<lambda>m. if m = ''text/html'' then [''.html'', ''.htm''] else []),
      image_decode = demo_image_decode,
      image_encode = demo_image_encode,
      mkstemp = (\<lambda>fs suffix. ''/tmp/stacked'' @ suffix),
      json_dumps = (\<lambda>st hs md. ''{status: '' @ str_int st @ ''}''),
      scrape_task = demo_scrape_task\<rparr>"

text \<open>The same deployment with a page that came without a \<open>Content-Type\<close> header.\<close>

definition untyped_env :: env where
  "untyped_env =
     demo_env\<lparr>scrape_task := (\<lambda>u wt fmt n dim fs.
        (Inr ((demo_page u)\<lparr>headers := [(''Server'', ''nginx'')]\<rparr>), snd (demo_scrape_task u wt fmt n dim fs)))\<rparr>"

definition empty_world :: world where
  "empty_world = \<lparr>files = Map.empty, locked = {}, trace = []\<rparr>"

definition demo_request :: request where
  "demo_request = \<lparr>authorization = None, accept = None, url = Some ''http://example.com/'',
                    wait = None, max_screenshots = None, browser_dim = None\<rparr>"

text \<open>Three screenshots on disk, of the sizes of the specification's stacking example.\<close>

definition three_shots :: world where
  "three_shots = \<lparr>files = [''/tmp/s1'' \<mapsto> ''IMG-A'', ''/tmp/s2'' \<mapsto> ''IMG-B'', ''/tmp/s3'' \<mapsto> ''IMG-C''],
                   locked = {}, trace = []\<rparr>"

text \<open>The boundary token of a multipart response; \<open>None\<close> for any other outcome.\<close>

definition sent_boundary :: "(exn + response) \<times> world \<Rightarrow> string option" where
  "sent_boundary out =
     (case fst out of
        Inl e \<Rightarrow> None
      | Inr resp \<Rightarrow> (case body resp of Error_json msg \<Rightarrow> None | Stream c \<Rightarrow> Some (boundary c)))"

definition file_request :: request where
  "file_request = demo_request\<lparr>url := Some ''FILE:///etc/passwd''\<rparr>"

definition negative_wait_request :: request where
  "negative_wait_request = demo_request\<lparr>wait := Some (- 1)\<rparr>"

text \<open>The request for \<open>http://example.com/\<close> with all three bounded fields given.\<close>

definition bounds_request :: "int \<Rightarrow> int \<Rightarrow> int \<Rightarrow> int \<Rightarrow> request" where
  "bounds_request wt bw bh n =
     demo_request\<lparr>wait := Some wt, max_screenshots := Some n, browser_dim := Some [bw, bh]\<rparr>"

text \<open>What the handler built for the page of \<open>http://example.com/\<close>, the same for the page
  without a \<open>Content-Type\<close>, and the world it left for the stream: the worker's three
  files and the stacked image.\<close>

definition demo_closure :: closure where
  "demo_closure =
     \<lparr>boundary = ''Boundary712sAM12MVaJff23NXJ'',
      task = \<lparr>status = 200, headers = [(''content-type'', ''text/html'')],
              content_file = Some ''/tmp/content'',
              screenshot_files = [''/tmp/s1'', ''/tmp/s2''],
              metadata = ''http://example.com/''\<rparr>,
      stacked_screenshot = Some ''/tmp/stacked.jpeg'',
      image_format = ''jpeg'',
      cleanup_files = [''/tmp/content'', ''/tmp/stacked.jpeg'']\<rparr>"

definition untyped_closure :: closure where
  "untyped_closure = demo_closure\<lparr>task := (task demo_closure)\<lparr>headers := [(''server'', ''nginx'')]\<rparr>\<rparr>"

definition after_scrape :: world where
  "after_scrape =
     \<lparr>files = [''/tmp/content'' \<mapsto> ''<html></html>'', ''/tmp/s1'' \<mapsto> ''IMG-A'',
               ''/tmp/s2'' \<mapsto> ''IMG-B'', ''/tmp/stacked.jpeg'' \<mapsto> ''JPEG 200x110 a@0 b@50''],
      locked = {},
      trace = [Resolve ''example.com'', Dispatch ''http://example.com/'' 1 ''jpeg'' 5 [1280, 2000]]\<rparr>"

text \<open>A page with one screenshot: the handler passes the screenshot itself on as the
  stacked image, so its path is on both lists the stream removes.\<close>

definition single_closure :: closure where
  "single_closure =
     \<lparr>boundary = ''Boundary712sAM12MVaJff23NXJ'',
      task = \<lparr>status = 200, headers = [(''content-type'', ''text/html'')],
              content_file = Some ''/tmp/content'',
              screenshot_files = [''/tmp/s1''],
              metadata = ''{}''\<rparr>,
      stacked_screenshot = Some ''/tmp/s1'',
      image_format = ''jpeg'',
      cleanup_files = [''/tmp/content'', ''/tmp/s1'']\<rparr>"

definition single_world :: world where
  "single_world =
     \<lparr>files = [''/tmp/content'' \<mapsto> ''<html></html>'', ''/tmp/s1'' \<mapsto> ''IMG-A''],
      locked = {}, trace = []\<rparr>"

subsection \<open>A relation between worlds, for the proofs about removals\<close>

text \<open>
  \<open>removals w w' ds\<close>: from \<open>w\<close> to \<open>w'\<close> nothing happened but the removal of the files
  \<open>ds\<close>, each recorded once, in this order; each of them existed in \<open>w\<close> and is gone in
  \<open>w'\<close>, and every other path is as it was.
\<close>

definition removals :: "world \<Rightarrow> world \<Rightarrow> string list \<Rightarrow> bool" where
  "removals w w' ds =
     (trace w' = trace w @ map Unlink ds \<and> distinct ds \<and> locked w' = locked w
      \<and> (\<forall>p. files w' p = (if p \<in> set ds then None else files w p))
      \<and> (\<forall>p \<in> set ds. files w p \<noteq> None))"

text \<open>The multipart response the handler wraps a stream in.\<close>

definition multipart :: "closure \<Rightarrow> response" where
  "multipart c = \<lparr>status_code = 200,
                  mimetype = ''multipart/mixed; boundary=Boundary712sAM12MVaJff23NXJ'',
                  body = Stream c\<rparr>"

section \<open>Properties\<close>

subsection \<open>The URL safety validator\<close>

lemma str_split_nonempty: "str_split c s \<noteq> []"
  by (induction s) (auto split: list.splits)





lemma demo_parse_simps:
  "str_strip ''http://example.com/'' = ''http://example.com/''"
  "str_strip ''http://nowhere.invalid/'' = ''http://nowhere.invalid/''"
  "str_strip ''https://example.org:8443/a'' = ''https://example.org:8443/a''"
  "str_strip ''http://intranet.test/'' = ''http://intranet.test/''"
  "str_strip '' FILE:///etc/passwd  '' = ''FILE:///etc/passwd''"
  by (simp_all add: str_strip_def is_space_def)

lemma demo_env_simps:
  "urlparse demo_env = demo_urlparse"
  "getaddrinfo demo_env = demo_getaddrinfo"
  "ip_address demo_env = demo_ip_address"
  "SCRAPER_API_KEYS demo_env = []"
  "MAX_WAIT demo_env = 10" "DEFAULT_WAIT demo_env = 1"
  "MAX_SCREENSHOTS demo_env = 5" "DEFAULT_SCREENSHOTS demo_env = 5"
  "MAX_BROWSER_DIM demo_env = (2400, 4000)" "MIN_BROWSER_DIM demo_env = (100, 100)"
  "DEFAULT_BROWSER_DIM demo_env = [1280, 2000]"
  "image_decode demo_env = demo_image_decode"
  "image_encode demo_env = demo_image_encode"
  "scrape_task demo_env = demo_scrape_task"
  "mkstemp demo_env fs suffix = ''/tmp/stacked'' @ suffix"
  "json_dumps demo_env st hs md = ''{status: '' @ str_int st @ ''}''"
  "guess_all_extensions demo_env m = (if m = ''text/html'' then [''.html'', ''.htm''] else [])"
  by (simp_all add: demo_env_def)


text \<open>
  C4. For a URL whose parsed scheme is \<open>file\<close> in any letter case, \<open>url_is_safe\<close>
  returns \<open>True\<close> whatever the allow-list, the host and the resolver are, and resolves
  nothing.
\<close>

theorem C4_file_scheme_always_safe:
  assumes "urlparse E (str_strip u) = Inr parsed"
    and "str_lower (scheme parsed) = ''file''"
  shows "url_is_safe E u allowed w = (Inr True, w)"
  using assms by (simp add: url_is_safe_def)

theorem C4_file_scheme_always_safe_witness:
  "urlparse demo_env (str_strip '' FILE:///etc/passwd  '') = Inr \<lparr>scheme = ''file'', netloc = []\<rparr>
   \<and> url_is_safe demo_env '' FILE:///etc/passwd  '' (Some {''https''}) empty_world = (Inr True, empty_world)
   \<and> url_is_safe (demo_env\<lparr>urlparse := (\<lambda>u. Inr \<lparr>scheme = ''FiLe'', netloc = ''10.0.0.1''\<rparr>)\<rparr>)
        ''File://10.0.0.1/x'' None empty_world = (Inr True, empty_world)"
proof -
  have p: "urlparse demo_env (str_strip '' FILE:///etc/passwd  '') = Inr \<lparr>scheme = ''file'', netloc = []\<rparr>"
    by (simp add: demo_parse_simps demo_env_simps demo_urlparse_def)
  have s: "str_lower (scheme \<lparr>scheme = ''file'', netloc = []\<rparr>) = ''file''"
    by (simp add: str_lower_def lower_char_def)
  have p': "urlparse (demo_env\<lparr>urlparse := (\<lambda>u. Inr \<lparr>scheme = ''FiLe'', netloc = ''10.0.0.1''\<rparr>)\<rparr>)
              (str_strip ''File://10.0.0.1/x'') = Inr \<lparr>scheme = ''FiLe'', netloc = ''10.0.0.1''\<rparr>"
    by simp
  have s': "str_lower (scheme \<lparr>scheme = ''FiLe'', netloc = ''10.0.0.1''\<rparr>) = ''file''"
    by (simp add: str_lower_def lower_char_def)
  show ?thesis
    using C4_file_scheme_always_safe [OF p s, of "Some {''https''}" empty_world]
      C4_file_scheme_always_safe [OF p' s', of None empty_world] p
    by simp
qed


subsection \<open>The image stacker\<close>

lemma open_all_map:
  "(open_all E w ps = Inr imgs) = (map (Image_open E w) ps = map Inr imgs)"
proof (induction ps arbitrary: imgs)
  case Nil
  then show ?case by auto
next
  case (Cons p ps)
  show ?case
  proof (cases "Image_open E w p")
    case (Inl e)
    then show ?thesis by (cases imgs) auto
  next
    case head: (Inr img)
    show ?thesis
    proof (cases "open_all E w ps")
      case (Inl e)
      have "map (Image_open E w) ps \<noteq> map Inr rest" for rest
        using Cons.IH [of rest] Inl by simp
      with head Inl show ?thesis by (cases imgs) auto
    next
      case (Inr rest)
      then have "map (Image_open E w) ps = map Inr rest"
        using Cons.IH [of rest] by simp
      with head Inr show ?thesis by (cases imgs) auto
    qed
  qed
qed

lemma paste_all_offsets:
  "paste_all cv y imgs =
     cv\<lparr>pastes := pastes cv @
        map (\<lambda>i. (imgs ! i, (0, y + sum_list (map height (take i imgs))))) [0..<length imgs]\<rparr>"
proof (induction imgs arbitrary: cv y)
  case Nil
  then show ?case by simp
next
  case (Cons img imgs)
  show ?case
    by (simp add: Cons.IH map_upt_Suc add.assoc del: upt_Suc)
qed

lemma py_max_Max: "xs \<noteq> [] \<Longrightarrow> py_max xs = Inr (Max (set xs))"
proof (cases xs)
  case Nil
  assume "xs \<noteq> []"
  with Nil show ?thesis by simp
next
  case (Cons x rest)
  then show ?thesis
    using Max.set_eq_fold [of x rest] by simp
qed

lemma stack_many:
  assumes "2 \<le> length ps" and "map (Image_open E w) ps = map Inr imgs"
  shows "stack_images_vertically E ps fmt w =
           (Inr (Some (mkstemp E (files w) (''.'' @ fmt))),
            w\<lparr>files := (files w)(mkstemp E (files w) (''.'' @ fmt) \<mapsto>
                 image_encode E (str_upper fmt)
                   \<lparr>cwidth = Max (set (map width imgs)),
                    cheight = sum_list (map height imgs),
                    pastes = map (\<lambda>i. (imgs ! i, (0, sum_list (map height (take i imgs)))))
                               [0..<length imgs]\<rparr>)\<rparr>)"
proof -
  have len: "length imgs = length ps"
    using assms(2) by (metis length_map)
  with assms(1) have ne: "map width imgs \<noteq> []" by auto
  have op: "open_all E w ps = Inr imgs"
    using assms(2) by (simp add: open_all_map)
  from assms(1) have "ps \<noteq> []" "length ps \<noteq> 1" by auto
  then show ?thesis
    by (simp add: stack_images_vertically_def op py_max_Max [OF ne] paste_all_offsets Let_def)
qed

text \<open>
  C7. \<open>stack_images_vertically\<close> returns \<open>None\<close> for an empty list and the one path
  itself for a one-element list, both times leaving every file as it was. For two or
  more files that all open as images, it returns the path \<open>mkstemp\<close> made and stores
  there the encoding of a canvas whose width is the largest input width, whose height
  is the sum of the input heights, and on which the images were pasted in input order,
  each at \<open>x = 0\<close> and at \<open>y\<close> the sum of the heights of the images before it.
\<close>

theorem C7_stack_images_vertically:
  "stack_images_vertically E [] fmt w = (Inr None, w)
   \<and> stack_images_vertically E [p] fmt w = (Inr (Some p), w)
   \<and> (2 \<le> length ps \<and> map (Image_open E w) ps = map Inr imgs \<longrightarrow>
        stack_images_vertically E ps fmt w =
          (Inr (Some (mkstemp E (files w) (''.'' @ fmt))),
           w\<lparr>files := (files w)(mkstemp E (files w) (''.'' @ fmt) \<mapsto>
                image_encode E (str_upper fmt)
                  \<lparr>cwidth = Max (set (map width imgs)),
                   cheight = sum_list (map height imgs),
                   pastes = map (\<lambda>i. (imgs ! i, (0, sum_list (map height (take i imgs)))))
                              [0..<length imgs]\<rparr>)\<rparr>))"
proof -
  have "stack_images_vertically E [] fmt w = (Inr None, w)"
    by (simp add: stack_images_vertically_def)
  moreover have "stack_images_vertically E [p] fmt w = (Inr (Some p), w)"
    by (simp add: stack_images_vertically_def)
  ultimately show ?thesis
    using stack_many [of ps E w imgs fmt] by blast
qed

text \<open>The example of the specification: widths 100, 200, 150 and heights 50, 60, 70 give a
  canvas of 200 by 180 with the images pasted at \<open>y\<close> = 0, 50 and 110.\<close>

theorem C7_stack_images_vertically_witness:
  "stack_images_vertically demo_env [''/tmp/s1'', ''/tmp/s2'', ''/tmp/s3''] ''png'' three_shots =
     (Inr (Some ''/tmp/stacked.png''),
      three_shots\<lparr>files := (files three_shots)(''/tmp/stacked.png'' \<mapsto>
         image_encode demo_env ''PNG''
           \<lparr>cwidth = 200, cheight = 180,
            pastes = [(\<lparr>width = 100, height = 50, pixels = ''a''\<rparr>, (0, 0)),
                      (\<lparr>width = 200, height = 60, pixels = ''b''\<rparr>, (0, 50)),
                      (\<lparr>width = 150, height = 70, pixels = ''c''\<rparr>, (0, 110))]\<rparr>)\<rparr>)
   \<and> stack_images_vertically demo_env [''/tmp/s1''] ''png'' three_shots = (Inr (Some ''/tmp/s1''), three_shots)"
proof -
  let ?imgs = "[\<lparr>width = 100, height = 50, pixels = ''a''\<rparr>,
                \<lparr>width = 200, height = 60, pixels = ''b''\<rparr>,
                \<lparr>width = 150, height = 70, pixels = ''c''\<rparr>]"
  have h: "2 \<le> length [''/tmp/s1'', ''/tmp/s2'', ''/tmp/s3'']
           \<and> map (Image_open demo_env three_shots) [''/tmp/s1'', ''/tmp/s2'', ''/tmp/s3''] = map Inr ?imgs"
    by (simp add: Image_open_def three_shots_def demo_env_simps demo_image_decode_def)
  have idx: "[0..<3] = [0, 1, 2]"
    by (simp add: upt_rec)
  have up: "str_upper ''png'' = ''PNG''"
    by (simp add: str_upper_def upper_char_def)
  show ?thesis
    using C7_stack_images_vertically
            [of demo_env "''png''" three_shots "''/tmp/s1''" "[''/tmp/s1'', ''/tmp/s2'', ''/tmp/s3'']" ?imgs] h
    by (simp add: demo_env_simps idx up)
qed


subsection \<open>The handler: what it validates, in which order, and what it answers\<close>

lemma events_since_same [simp]: "events_since w w = []"
  by (simp add: events_since_def)

lemma events_since_emit [simp]: "events_since w (emit e w) = [e]"
  by (simp add: events_since_def emit_def)

lemma events_since_trace:
  "trace w' = trace w @ evs \<Longrightarrow> events_since w w' = evs"
  by (simp add: events_since_def)

lemma url_is_safe_world:
  "snd (url_is_safe E u a w) = w
   \<or> snd (url_is_safe E u a w) = emit (Resolve (hd (str_split (CHR '':'') (netloc (projr (urlparse E (str_strip u))))))) w"
  by (auto simp: url_is_safe_def Let_def split: sum.splits)

lemma stack_images_trace [simp]:
  "trace (snd (stack_images_vertically E ps fmt w)) = trace w"
  by (auto simp: stack_images_vertically_def Let_def split: sum.splits)

lemma respond_trace [simp]: "trace (snd (respond E t fmt w)) = trace w"
proof (cases "stack_images_vertically E (screenshot_files t) fmt w")
  case (Pair res w1)
  then have "trace w1 = trace w"
    using stack_images_trace [of E "screenshot_files t" fmt w] by simp
  with Pair show ?thesis
    by (auto simp: respond_def Let_def split: sum.splits)
qed

lemma dispatch_trace [simp]:
  "trace (snd (dispatch E u wt fmt n dim w)) = trace w @ [Dispatch u wt fmt n dim]"
  by (auto simp: dispatch_def Let_def emit_def split: prod.splits sum.splits)

lemma check_dim_None:
  "(check_dim E dim i name = Inr None) =
     (i < length dim \<and> axis (MIN_BROWSER_DIM E) i \<le> dim ! i \<and> dim ! i \<le> axis (MAX_BROWSER_DIM E) i)"
  by (auto simp: check_dim_def item_def)

lemma check_dim_Some:
  "check_dim E dim i name = Inr (Some resp) \<Longrightarrow> status_code resp = 400"
  by (auto simp: check_dim_def item_def jsonify_def split: if_splits)

lemma check_bounds_None:
  "(check_bounds E wt dim n = Inr None) =
     (0 \<le> wt \<and> wt \<le> MAX_WAIT E
      \<and> 2 \<le> length dim
      \<and> fst (MIN_BROWSER_DIM E) \<le> dim ! 0 \<and> dim ! 0 \<le> fst (MAX_BROWSER_DIM E)
      \<and> snd (MIN_BROWSER_DIM E) \<le> dim ! 1 \<and> dim ! 1 \<le> snd (MAX_BROWSER_DIM E)
      \<and> n \<le> MAX_SCREENSHOTS E)"
proof -
  have w: "check_dim E dim 0 ''width'' = Inr None \<longleftrightarrow>
             0 < length dim \<and> fst (MIN_BROWSER_DIM E) \<le> dim ! 0 \<and> dim ! 0 \<le> fst (MAX_BROWSER_DIM E)"
    by (simp add: check_dim_None axis_def)
  have h: "check_dim E dim 1 ''height'' = Inr None \<longleftrightarrow>
             1 < length dim \<and> snd (MIN_BROWSER_DIM E) \<le> dim ! 1 \<and> dim ! 1 \<le> snd (MAX_BROWSER_DIM E)"
    by (simp add: check_dim_None axis_def)
  show ?thesis
  proof (cases "check_dim E dim 0 ''width'' = Inr None")
    case False
    then have "check_bounds E wt dim n \<noteq> Inr None"
      by (auto simp: check_bounds_def split: sum.splits option.splits)
    with False w show ?thesis by auto
  next
    case w0: True
    show ?thesis
    proof (cases "check_dim E dim 1 ''height'' = Inr None")
      case False
      then have "check_bounds E wt dim n \<noteq> Inr None"
        by (auto simp: check_bounds_def split: sum.splits option.splits)
      with False h show ?thesis by auto
    next
      case True
      with w0 have "check_bounds E wt dim n = Inr None \<longleftrightarrow> 0 \<le> wt \<and> wt \<le> MAX_WAIT E \<and> n \<le> MAX_SCREENSHOTS E"
        by (auto simp: check_bounds_def)
      with w0 True w h show ?thesis by auto
    qed
  qed
qed

lemma check_bounds_Some:
  "check_bounds E wt dim n = Inr (Some resp) \<Longrightarrow> status_code resp = 400"
  by (auto simp: check_bounds_def jsonify_def split: if_splits sum.splits option.splits
      dest: check_dim_Some)

lemma check_bounds_pair:
  "check_bounds E wt [bw, bh] n = Inr None
   \<or> (\<exists>resp. check_bounds E wt [bw, bh] n = Inr (Some resp) \<and> status_code resp = 400)"
proof (cases "check_bounds E wt [bw, bh] n")
  case (Inl e)
  then show ?thesis
    by (auto simp: check_bounds_def check_dim_def item_def split: if_splits sum.splits option.splits)
next
  case (Inr opt)
  then show ?thesis
    by (cases opt) (auto dest: check_bounds_Some)
qed

text \<open>The handler once the bearer token and the URL have been accepted.\<close>

lemma scrape_accepted:
  assumes "check_auth E r = Inr None" and "url r = Some u" and "u \<noteq> []"
    and "url_is_safe E u None w = (Inr True, w1)"
  shows "scrape E r w =
           (let wt = (case wait r of None \<Rightarrow> DEFAULT_WAIT E | Some x \<Rightarrow> x);
                n = (case max_screenshots r of None \<Rightarrow> DEFAULT_SCREENSHOTS E | Some x \<Rightarrow> x);
                dim = (case browser_dim r of None \<Rightarrow> DEFAULT_BROWSER_DIM E | Some x \<Rightarrow> x)
            in case check_bounds E wt dim n of
                 Inl e \<Rightarrow> (Inl e, w1)
               | Inr (Some resp) \<Rightarrow> (Inr resp, w1)
               | Inr None \<Rightarrow>
                   (case negotiate_format r of
                      Inl resp \<Rightarrow> (Inr resp, w1)
                    | Inr fmt \<Rightarrow> dispatch E u wt fmt n dim w1))"
  using assms by (simp add: scrape_def Let_def)

text \<open>Every way the handler can go, with the events it leaves behind.\<close>

lemma scrape_events:
  fixes E r w
  defines "evs \<equiv> events_since w (snd (scrape E r w))"
    and "wt \<equiv> (case wait r of None \<Rightarrow> DEFAULT_WAIT E | Some x \<Rightarrow> x)"
    and "n \<equiv> (case max_screenshots r of None \<Rightarrow> DEFAULT_SCREENSHOTS E | Some x \<Rightarrow> x)"
    and "dim \<equiv> (case browser_dim r of None \<Rightarrow> DEFAULT_BROWSER_DIM E | Some x \<Rightarrow> x)"
  shows "evs = []
       \<or> (\<exists>h. check_auth E r = Inr None \<and> truthy (url r) \<and> evs = [Resolve h])
       \<or> (\<exists>pre fmt. (pre = [] \<or> (\<exists>h. pre = [Resolve h]))
             \<and> check_auth E r = Inr None \<and> truthy (url r)
             \<and> fst (url_is_safe E (the (url r)) None w) = Inr True
             \<and> check_bounds E wt dim n = Inr None \<and> negotiate_format r = Inr fmt
             \<and> evs = pre @ [Dispatch (the (url r)) wt fmt n dim])"
proof (cases "check_auth E r = Inr None \<and> truthy (url r)")
  case False
  then have "snd (scrape E r w) = w"
    by (auto simp: scrape_def split: sum.splits option.splits)
  then show ?thesis by (simp add: evs_def)
next
  case True
  obtain res w1 where safe: "url_is_safe E (the (url r)) None w = (res, w1)"
    by (cases "url_is_safe E (the (url r)) None w") auto
  have w1: "w1 = w \<or> (\<exists>h. w1 = emit (Resolve h) w)"
    using url_is_safe_world [of E "the (url r)" None w] safe by auto
  then have pre: "events_since w w1 = [] \<or> (\<exists>h. events_since w w1 = [Resolve h])"
    by auto
  have tr1: "trace w1 = trace w @ events_since w w1"
    using w1 by (auto simp: emit_def events_since_def)
  show ?thesis
  proof (cases "res = Inr True \<and> check_bounds E wt dim n = Inr None
                  \<and> (\<exists>fmt. negotiate_format r = Inr fmt)")
    case False
    then have "snd (scrape E r w) = w1"
      using True safe
      by (auto simp: scrape_def Let_def wt_def n_def dim_def split: sum.splits option.splits)
    with pre True show ?thesis by (auto simp: evs_def)
  next
    case ok: True
    then obtain fmt where fmt: "negotiate_format r = Inr fmt" by blast
    have "scrape E r w = dispatch E (the (url r)) wt fmt n dim w1"
      using True safe ok fmt
      by (auto simp: scrape_def Let_def wt_def n_def dim_def)
    then have "trace (snd (scrape E r w))
                 = trace w @ (events_since w w1 @ [Dispatch (the (url r)) wt fmt n dim])"
      using tr1 by simp
    then have "evs = events_since w w1 @ [Dispatch (the (url r)) wt fmt n dim]"
      unfolding evs_def by (rule events_since_trace)
    with pre True ok fmt safe show ?thesis by auto
  qed
qed


text \<open>The two runs of the concrete deployment that the closed theorems below refer to.\<close>

lemma demo_strip_file: "str_strip ''FILE:///etc/passwd'' = ''FILE:///etc/passwd''"
  by (simp add: str_strip_def is_space_def)

lemma demo_url_is_safe:
  "url_is_safe demo_env ''http://example.com/'' None w = (Inr True, emit (Resolve ''example.com'') w)"
  "url_is_safe demo_env ''FILE:///etc/passwd'' None w = (Inr True, w)"
  by (simp_all add: url_is_safe_def demo_env_simps demo_parse_simps demo_strip_file
      demo_urlparse_def demo_getaddrinfo_def demo_ip_address_def sockaddr_host_def public_ip_def
      is_private_ip_def default_schemes_def str_lower_def lower_char_def Let_def)

lemma demo_check_auth: "check_auth demo_env r = Inr None"
  by (simp add: check_auth_def demo_env_simps)

lemma demo_check_bounds: "check_bounds demo_env 1 [1280, 2000] 5 = Inr None"
  by (simp add: check_bounds_None demo_env_simps)

lemma demo_negotiate: "accept r = None \<Longrightarrow> negotiate_format r = Inr ''jpeg''"
  by (simp add: negotiate_format_def accepted_formats_def Let_def)

lemma demo_respond:
  assumes "files w = [''/tmp/content'' \<mapsto> ''<html></html>'', ''/tmp/s1'' \<mapsto> ''IMG-A'', ''/tmp/s2'' \<mapsto> ''IMG-B'']"
  shows "fst (respond demo_env ((demo_page u)\<lparr>headers := lower_keys (headers (demo_page u))\<rparr>) ''jpeg'' w) =
           Inr \<lparr>status_code = 200,
                mimetype = ''multipart/mixed; boundary=Boundary712sAM12MVaJff23NXJ'',
                body = Stream \<lparr>boundary = ''Boundary712sAM12MVaJff23NXJ'',
                               task = \<lparr>status = 200, headers = [(''content-type'', ''text/html'')],
                                       content_file = Some ''/tmp/content'',
                                       screenshot_files = [''/tmp/s1'', ''/tmp/s2''], metadata = u\<rparr>,
                               stacked_screenshot = Some ''/tmp/stacked.jpeg'',
                               image_format = ''jpeg'',
                               cleanup_files = [''/tmp/content'', ''/tmp/stacked.jpeg'']\<rparr>\<rparr>"
proof -
  have two: "2 \<le> length [''/tmp/s1'', ''/tmp/s2'']"
    by simp
  have opened: "map (Image_open demo_env w) [''/tmp/s1'', ''/tmp/s2'']
          = map Inr [\<lparr>width = 100, height = 50, pixels = ''a''\<rparr>, \<lparr>width = 200, height = 60, pixels = ''b''\<rparr>]"
    by (simp add: Image_open_def assms demo_env_simps demo_image_decode_def)
  obtain w' where "stack_images_vertically demo_env [''/tmp/s1'', ''/tmp/s2''] ''jpeg'' w
                     = (Inr (Some ''/tmp/stacked.jpeg''), w')"
    unfolding stack_many [OF two opened, of "''jpeg''"] by (simp add: demo_env_simps)
  then show ?thesis
    by (simp add: respond_def demo_page_def lower_keys_def str_lower_def lower_char_def
        the_boundary_def Let_def)
qed

lemma demo_scrape:
  "fst (scrape demo_env demo_request empty_world) =
     Inr \<lparr>status_code = 200,
          mimetype = ''multipart/mixed; boundary=Boundary712sAM12MVaJff23NXJ'',
          body = Stream \<lparr>boundary = ''Boundary712sAM12MVaJff23NXJ'',
                         task = \<lparr>status = 200, headers = [(''content-type'', ''text/html'')],
                                 content_file = Some ''/tmp/content'',
                                 screenshot_files = [''/tmp/s1'', ''/tmp/s2''],
                                 metadata = ''http://example.com/''\<rparr>,
                         stacked_screenshot = Some ''/tmp/stacked.jpeg'',
                         image_format = ''jpeg'',
                         cleanup_files = [''/tmp/content'', ''/tmp/stacked.jpeg'']\<rparr>\<rparr>"
  "trace (snd (scrape demo_env demo_request empty_world)) =
     [Resolve ''example.com'', Dispatch ''http://example.com/'' 1 ''jpeg'' 5 [1280, 2000]]"
proof -
  have u: "url demo_request = Some ''http://example.com/''" "''http://example.com/'' \<noteq> []"
    and a: "accept demo_request = None"
    by (simp_all add: demo_request_def)
  have eq: "scrape demo_env demo_request empty_world =
              dispatch demo_env ''http://example.com/'' 1 ''jpeg'' 5 [1280, 2000]
                (emit (Resolve ''example.com'') empty_world)"
    by (subst scrape_accepted [OF demo_check_auth u demo_url_is_safe(1)])
       (simp add: demo_request_def demo_env_simps demo_check_bounds demo_negotiate)
  show "trace (snd (scrape demo_env demo_request empty_world)) =
     [Resolve ''example.com'', Dispatch ''http://example.com/'' 1 ''jpeg'' 5 [1280, 2000]]"
    unfolding eq by (simp add: emit_def empty_world_def)
  show "fst (scrape demo_env demo_request empty_world) =
     Inr \<lparr>status_code = 200,
          mimetype = ''multipart/mixed; boundary=Boundary712sAM12MVaJff23NXJ'',
          body = Stream \<lparr>boundary = ''Boundary712sAM12MVaJff23NXJ'',
                         task = \<lparr>status = 200, headers = [(''content-type'', ''text/html'')],
                                 content_file = Some ''/tmp/content'',
                                 screenshot_files = [''/tmp/s1'', ''/tmp/s2''],
                                 metadata = ''http://example.com/''\<rparr>,
                         stacked_screenshot = Some ''/tmp/stacked.jpeg'',
                         image_format = ''jpeg'',
                         cleanup_files = [''/tmp/content'', ''/tmp/stacked.jpeg'']\<rparr>\<rparr>"
    unfolding eq
    by (simp add: dispatch_def demo_env_simps demo_scrape_task_def Let_def emit_def empty_world_def
        demo_respond)
qed

lemma file_scrape:
  "fst (scrape demo_env file_request empty_world) =
     Inr \<lparr>status_code = 200,
          mimetype = ''multipart/mixed; boundary=Boundary712sAM12MVaJff23NXJ'',
          body = Stream \<lparr>boundary = ''Boundary712sAM12MVaJff23NXJ'',
                         task = \<lparr>status = 200, headers = [(''content-type'', ''text/html'')],
                                 content_file = Some ''/tmp/content'',
                                 screenshot_files = [''/tmp/s1'', ''/tmp/s2''],
                                 metadata = ''FILE:///etc/passwd''\<rparr>,
                         stacked_screenshot = Some ''/tmp/stacked.jpeg'',
                         image_format = ''jpeg'',
                         cleanup_files = [''/tmp/content'', ''/tmp/stacked.jpeg'']\<rparr>\<rparr>"
proof -
  have u: "url file_request = Some ''FILE:///etc/passwd''" "''FILE:///etc/passwd'' \<noteq> []"
    by (simp_all add: file_request_def demo_request_def)
  have eq: "scrape demo_env file_request empty_world =
              dispatch demo_env ''FILE:///etc/passwd'' 1 ''jpeg'' 5 [1280, 2000] empty_world"
    by (subst scrape_accepted [OF demo_check_auth u demo_url_is_safe(2)])
       (simp add: file_request_def demo_request_def demo_env_simps demo_check_bounds demo_negotiate)
  show ?thesis
    unfolding eq
    by (simp add: dispatch_def demo_env_simps demo_scrape_task_def Let_def emit_def empty_world_def
        demo_respond)
qed

lemma negative_wait_scrape:
  "events_since empty_world (snd (scrape demo_env negative_wait_request empty_world)) = [Resolve ''example.com'']"
  "returned_status (scrape demo_env negative_wait_request empty_world) = Some 400"
proof -
  have u: "url negative_wait_request = Some ''http://example.com/''" "''http://example.com/'' \<noteq> []"
    by (simp_all add: negative_wait_request_def demo_request_def)
  obtain resp where resp: "check_bounds demo_env (- 1) [1280, 2000] 5 = Inr (Some resp)"
      and code: "status_code resp = 400"
    using check_bounds_pair [of demo_env "- 1" 1280 2000 5]
    by (auto simp: check_bounds_None)
  have eq: "scrape demo_env negative_wait_request empty_world = (Inr resp, emit (Resolve ''example.com'') empty_world)"
    by (subst scrape_accepted [OF demo_check_auth u demo_url_is_safe(1)])
       (simp add: negative_wait_request_def demo_request_def demo_env_simps resp)
  show "events_since empty_world (snd (scrape demo_env negative_wait_request empty_world)) = [Resolve ''example.com'']"
    unfolding eq by simp
  show "returned_status (scrape demo_env negative_wait_request empty_world) = Some 400"
    unfolding eq by (simp add: returned_status_def code)
qed


text \<open>
  C3, as stated, fails. In the concrete deployment a request for \<open>http://example.com/\<close>
  with \<open>wait = -1\<close> has its host resolved and is only then rejected with status 400 by
  the bound on \<open>wait\<close>: the name resolution of line 167 runs before the bound checks of
  lines 174 to 188.
\<close>

theorem C3_dns_before_bound_checks_counterexample:
  "events_since empty_world (snd (scrape demo_env negative_wait_request empty_world))
     = [Resolve ''example.com'']
   \<and> wait negative_wait_request = Some (- 1)
   \<and> check_bounds demo_env (- 1) [1280, 2000] 5 \<noteq> Inr None
   \<and> returned_status (scrape demo_env negative_wait_request empty_world) = Some 400"
proof -
  have "wait negative_wait_request = Some (- 1)"
    by (simp add: negative_wait_request_def demo_request_def)
  moreover have "check_bounds demo_env (- 1) [1280, 2000] 5 \<noteq> Inr None"
    by (simp add: check_bounds_None)
  ultimately show ?thesis
    by (simp add: negative_wait_scrape)
qed

text \<open>
  C3, amended. For every request, a host is resolved only after the bearer token was
  accepted and the \<open>url\<close> was found present and non-empty, and the worker is dispatched
  only after, in addition, the URL was judged safe and every bound check passed: the
  dispatched \<open>wait\<close> lies in \<open>[0, MAX_WAIT]\<close>, both axes of the dispatched \<open>browser_dim\<close>
  lie within their minimum and maximum, and the dispatched \<open>max_screenshots\<close> is at most
  \<open>MAX_SCREENSHOTS\<close>. (The resolution itself precedes the bound checks.)
\<close>

theorem C3_dispatch_only_after_validation:
  "(\<forall>h. Resolve h \<in> set (events_since w (snd (scrape E r w)))
        \<longrightarrow> check_auth E r = Inr None \<and> truthy (url r))
   \<and> (\<forall>u wt fmt n dim. Dispatch u wt fmt n dim \<in> set (events_since w (snd (scrape E r w)))
        \<longrightarrow> check_auth E r = Inr None \<and> url r = Some u \<and> u \<noteq> []
            \<and> fst (url_is_safe E u None w) = Inr True
            \<and> wt = (case wait r of None \<Rightarrow> DEFAULT_WAIT E | Some x \<Rightarrow> x)
            \<and> n = (case max_screenshots r of None \<Rightarrow> DEFAULT_SCREENSHOTS E | Some x \<Rightarrow> x)
            \<and> dim = (case browser_dim r of None \<Rightarrow> DEFAULT_BROWSER_DIM E | Some x \<Rightarrow> x)
            \<and> 0 \<le> wt \<and> wt \<le> MAX_WAIT E
            \<and> 2 \<le> length dim
            \<and> fst (MIN_BROWSER_DIM E) \<le> dim ! 0 \<and> dim ! 0 \<le> fst (MAX_BROWSER_DIM E)
            \<and> snd (MIN_BROWSER_DIM E) \<le> dim ! 1 \<and> dim ! 1 \<le> snd (MAX_BROWSER_DIM E)
            \<and> n \<le> MAX_SCREENSHOTS E)"
proof -
  have t: "truthy (url r) \<Longrightarrow> url r = Some (the (url r)) \<and> the (url r) \<noteq> []"
    by (cases "url r") auto
  show ?thesis
    using scrape_events [of w E r] t
    by (auto simp: check_bounds_None)
qed

theorem C3_dispatch_only_after_validation_witness:
  "Resolve ''example.com'' \<in> set (events_since empty_world (snd (scrape demo_env demo_request empty_world)))
   \<and> Dispatch ''http://example.com/'' 1 ''jpeg'' 5 [1280, 2000]
        \<in> set (events_since empty_world (snd (scrape demo_env demo_request empty_world)))
   \<and> url demo_request = Some ''http://example.com/''
   \<and> fst (url_is_safe demo_env ''http://example.com/'' None empty_world) = Inr True
   \<and> (1::int) \<le> MAX_WAIT demo_env
   \<and> fst (MIN_BROWSER_DIM demo_env) \<le> [1280, 2000] ! 0 \<and> [1280, 2000] ! 0 \<le> fst (MAX_BROWSER_DIM demo_env)
   \<and> snd (MIN_BROWSER_DIM demo_env) \<le> [1280, 2000] ! 1 \<and> [1280, 2000] ! 1 \<le> snd (MAX_BROWSER_DIM demo_env)
   \<and> (5::int) \<le> MAX_SCREENSHOTS demo_env"
proof -
  have ev: "events_since empty_world (snd (scrape demo_env demo_request empty_world))
              = [Resolve ''example.com'', Dispatch ''http://example.com/'' 1 ''jpeg'' 5 [1280, 2000]]"
    by (rule events_since_trace) (simp add: demo_scrape(2), simp add: empty_world_def)
  have mem: "Dispatch ''http://example.com/'' 1 ''jpeg'' 5 [1280, 2000]
          \<in> set (events_since empty_world (snd (scrape demo_env demo_request empty_world)))"
    by (simp add: ev)
  note checked = C3_dispatch_only_after_validation
                   [of empty_world demo_env demo_request, THEN conjunct2, rule_format, OF mem]
  from checked have "url demo_request = Some ''http://example.com/''"
    and "fst (url_is_safe demo_env ''http://example.com/'' None empty_world) = Inr True"
    and "(1::int) \<le> MAX_WAIT demo_env"
    and "fst (MIN_BROWSER_DIM demo_env) \<le> [1280, 2000] ! 0"
    and "[1280, 2000] ! 0 \<le> fst (MAX_BROWSER_DIM demo_env)"
    and "snd (MIN_BROWSER_DIM demo_env) \<le> [1280, 2000] ! 1"
    and "[1280, 2000] ! 1 \<le> snd (MAX_BROWSER_DIM demo_env)"
    and "(5::int) \<le> MAX_SCREENSHOTS demo_env"
    by blast+
  with ev show ?thesis by simp
qed


lemma check_auth_Some:
  "check_auth E r = Inr (Some resp) \<Longrightarrow> \<exists>msg. resp = jsonify msg 401"
  by (auto simp: check_auth_def split: if_splits option.splits sum.splits)

lemma check_dim_jsonify:
  "check_dim E dim i name = Inr (Some resp) \<Longrightarrow> \<exists>msg. resp = jsonify msg 400"
  by (auto simp: check_dim_def split: if_splits sum.splits)

lemma check_bounds_jsonify:
  "check_bounds E wt dim n = Inr (Some resp) \<Longrightarrow> \<exists>msg. resp = jsonify msg 400"
  by (auto simp: check_bounds_def split: if_splits sum.splits option.splits
      dest: check_dim_jsonify)

lemma negotiate_format_Inl:
  "negotiate_format r = Inl resp \<Longrightarrow> \<exists>msg. resp = jsonify msg 406"
  by (auto simp: negotiate_format_def Let_def split: option.splits if_splits)

lemma respond_cases:
  assumes "fst (respond E t fmt w) = Inr resp"
  shows "(\<exists>msg. resp = jsonify msg 500)
       \<or> (\<exists>c. resp = \<lparr>status_code = 200,
                        mimetype = ''multipart/mixed; boundary=Boundary712sAM12MVaJff23NXJ'',
                        body = Stream c\<rparr>
              \<and> boundary c = ''Boundary712sAM12MVaJff23NXJ'' \<and> image_format c = fmt)"
proof (cases "truthy (content_file t)")
  case False
  with assms show ?thesis by (auto simp: respond_def)
next
  case True
  obtain res w1 where st:
    "(if screenshot_files t \<noteq> [] then stack_images_vertically E (screenshot_files t) fmt w
      else (Inr None, w)) = (res, w1)"
    by (metis surj_pair)
  show ?thesis
  proof (cases res)
    case (Inl e)
    with assms True st show ?thesis by (simp add: respond_def)
  next
    case (Inr stacked)
    with assms True st show ?thesis
      by (auto simp: respond_def Let_def the_boundary_def)
  qed
qed

lemma dispatch_cases:
  assumes "fst (dispatch E u wt fmt n dim w) = Inr resp"
  shows "(\<exists>msg. resp = jsonify msg 500)
       \<or> (\<exists>c. resp = \<lparr>status_code = 200,
                        mimetype = ''multipart/mixed; boundary=Boundary712sAM12MVaJff23NXJ'',
                        body = Stream c\<rparr>
              \<and> boundary c = ''Boundary712sAM12MVaJff23NXJ'' \<and> image_format c = fmt)"
proof -
  obtain res fs where run:
    "scrape_task E u wt fmt n dim (files (emit (Dispatch u wt fmt n dim) w)) = (res, fs)"
    by (metis surj_pair)
  show ?thesis
  proof (cases res)
    case (Inl e)
    with assms run show ?thesis
      by (auto simp: dispatch_def Let_def split: if_splits)
  next
    case (Inr t)
    with assms run show ?thesis
      by (auto simp: dispatch_def Let_def dest: respond_cases)
  qed
qed

text \<open>Every response the handler can return.\<close>

lemma scrape_cases:
  assumes "fst (scrape E r w) = Inr resp"
  shows "(\<exists>msg. resp = jsonify msg 401)
       \<or> (\<exists>msg. resp = jsonify msg 400)
       \<or> ((\<exists>msg. resp = jsonify msg 406) \<and> negotiate_format r = Inl resp)
       \<or> (\<exists>msg. resp = jsonify msg 500)
       \<or> (\<exists>c. resp = \<lparr>status_code = 200,
                        mimetype = ''multipart/mixed; boundary=Boundary712sAM12MVaJff23NXJ'',
                        body = Stream c\<rparr>
              \<and> boundary c = ''Boundary712sAM12MVaJff23NXJ''
              \<and> negotiate_format r = Inr (image_format c))"
proof (cases "check_auth E r = Inr None \<and> truthy (url r)")
  case False
  with assms show ?thesis
    by (auto simp: scrape_def split: sum.splits option.splits dest: check_auth_Some)
next
  case True
  then obtain u where u: "url r = Some u" "u \<noteq> []"
    by (cases "url r") auto
  obtain res w1 where safe: "url_is_safe E u None w = (res, w1)"
    by (metis surj_pair)
  show ?thesis
  proof (cases "res = Inr True")
    case False
    with assms True u safe show ?thesis
      by (auto simp: scrape_def split: sum.splits)
  next
    case ok: True
    let ?wt = "case wait r of None \<Rightarrow> DEFAULT_WAIT E | Some x \<Rightarrow> x"
    let ?n = "case max_screenshots r of None \<Rightarrow> DEFAULT_SCREENSHOTS E | Some x \<Rightarrow> x"
    let ?dim = "case browser_dim r of None \<Rightarrow> DEFAULT_BROWSER_DIM E | Some x \<Rightarrow> x"
    note eq = scrape_accepted [OF conjunct1 [OF True] u safe [unfolded ok]]
    show ?thesis
    proof (cases "check_bounds E ?wt ?dim ?n")
      case (Inl e)
      with assms eq show ?thesis by (simp add: Let_def)
    next
      case (Inr opt)
      show ?thesis
      proof (cases opt)
        case (Some bad)
        with assms eq Inr have "resp = bad" by (simp add: Let_def)
        with Inr Some show ?thesis by (auto dest: check_bounds_jsonify)
      next
        case None
        show ?thesis
        proof (cases "negotiate_format r")
          case (Inl bad)
          with assms eq Inr None have "resp = bad" by (simp add: Let_def)
          with Inl show ?thesis by (auto dest: negotiate_format_Inl)
        next
          case fmt: (Inr fmt)
          with assms eq Inr None
          have "fst (dispatch E u ?wt fmt ?n ?dim w1) = Inr resp" by (simp add: Let_def)
          from dispatch_cases [OF this] fmt show ?thesis by auto
        qed
      qed
    qed
  qed
qed


text \<open>
  C5, as stated, fails: two different responses of the concrete deployment, one for
  \<open>http://example.com/\<close> and one for \<open>FILE:///etc/passwd\<close>, carry the same boundary
  token.
\<close>

theorem C5_boundary_shared_counterexample:
  "fst (scrape demo_env demo_request empty_world) \<noteq> fst (scrape demo_env file_request empty_world)
   \<and> sent_boundary (scrape demo_env demo_request empty_world) = Some ''Boundary712sAM12MVaJff23NXJ''
   \<and> sent_boundary (scrape demo_env file_request empty_world) = Some ''Boundary712sAM12MVaJff23NXJ''"
proof -
  have "fst (scrape demo_env demo_request empty_world) \<noteq> fst (scrape demo_env file_request empty_world)"
    unfolding demo_scrape(1) file_scrape by simp
  moreover have "sent_boundary (scrape demo_env demo_request empty_world) = Some ''Boundary712sAM12MVaJff23NXJ''"
    unfolding sent_boundary_def demo_scrape(1) by simp
  moreover have "sent_boundary (scrape demo_env file_request empty_world) = Some ''Boundary712sAM12MVaJff23NXJ''"
    unfolding sent_boundary_def file_scrape by simp
  ultimately show ?thesis by blast
qed

text \<open>
  C5, amended. The boundary token is the literal \<open>Boundary712sAM12MVaJff23NXJ\<close> in
  every multipart response: whenever the handler answers with a stream, that stream is
  built with this token, the response has status 200, and its content type is
  \<open>multipart/mixed; boundary=Boundary712sAM12MVaJff23NXJ\<close>.
\<close>

theorem C5_boundary_is_the_literal:
  "(sent_boundary (scrape E r w) = Some b \<longrightarrow> b = ''Boundary712sAM12MVaJff23NXJ'')
   \<and> (\<forall>resp c. fst (scrape E r w) = Inr resp \<and> body resp = Stream c \<longrightarrow>
          boundary c = ''Boundary712sAM12MVaJff23NXJ'' \<and> status_code resp = 200
          \<and> mimetype resp = ''multipart/mixed; boundary=Boundary712sAM12MVaJff23NXJ'')"
proof -
  have main: "boundary c = ''Boundary712sAM12MVaJff23NXJ'' \<and> status_code resp = 200
          \<and> mimetype resp = ''multipart/mixed; boundary=Boundary712sAM12MVaJff23NXJ''"
    if "fst (scrape E r w) = Inr resp" and "body resp = Stream c" for resp c
    using scrape_cases [OF that(1)] that(2) by (auto simp: jsonify_def)
  have "b = ''Boundary712sAM12MVaJff23NXJ''" if sb: "sent_boundary (scrape E r w) = Some b"
  proof -
    from sb obtain resp c where "fst (scrape E r w) = Inr resp" and "body resp = Stream c"
      and "b = boundary c"
      by (auto simp: sent_boundary_def split: sum.splits body.splits)
    with main [of resp c] show ?thesis by blast
  qed
  with main show ?thesis by blast
qed

theorem C5_boundary_is_the_literal_witness:
  "sent_boundary (scrape demo_env demo_request empty_world) = Some ''Boundary712sAM12MVaJff23NXJ''
   \<and> sent_boundary (scrape demo_env file_request empty_world) = Some ''Boundary712sAM12MVaJff23NXJ''"
proof -
  have "sent_boundary (scrape demo_env demo_request empty_world) \<noteq> None"
    unfolding sent_boundary_def demo_scrape(1) by simp
  then obtain b1 where b1: "sent_boundary (scrape demo_env demo_request empty_world) = Some b1"
    by blast
  have "sent_boundary (scrape demo_env file_request empty_world) \<noteq> None"
    unfolding sent_boundary_def file_scrape by simp
  then obtain b2 where b2: "sent_boundary (scrape demo_env file_request empty_world) = Some b2"
    by blast
  from C5_boundary_is_the_literal [of demo_env demo_request empty_world b1] b1
  have "b1 = ''Boundary712sAM12MVaJff23NXJ''" by blast
  moreover from C5_boundary_is_the_literal [of demo_env file_request empty_world b2] b2
  have "b2 = ''Boundary712sAM12MVaJff23NXJ''" by blast
  ultimately show ?thesis using b1 b2 by blast
qed


lemma scrape_status_400_iff:
  assumes auth: "check_auth E r = Inr None"
    and u: "url r = Some u" "u \<noteq> []"
    and safe: "fst (url_is_safe E u None w) = Inr True"
    and vals: "wait r = Some wt" "browser_dim r = Some [bw, bh]" "max_screenshots r = Some n"
  shows "(returned_status (scrape E r w) = Some 400) =
           (\<not> (0 \<le> wt \<and> wt \<le> MAX_WAIT E
               \<and> fst (MIN_BROWSER_DIM E) \<le> bw \<and> bw \<le> fst (MAX_BROWSER_DIM E)
               \<and> snd (MIN_BROWSER_DIM E) \<le> bh \<and> bh \<le> snd (MAX_BROWSER_DIM E)
               \<and> n \<le> MAX_SCREENSHOTS E))"
proof -
  obtain w1 where s: "url_is_safe E u None w = (Inr True, w1)"
    using safe by (cases "url_is_safe E u None w") auto
  note eq = scrape_accepted [OF auth u s]
  have inrange: "(check_bounds E wt [bw, bh] n = Inr None) =
           (0 \<le> wt \<and> wt \<le> MAX_WAIT E
               \<and> fst (MIN_BROWSER_DIM E) \<le> bw \<and> bw \<le> fst (MAX_BROWSER_DIM E)
               \<and> snd (MIN_BROWSER_DIM E) \<le> bh \<and> bh \<le> snd (MAX_BROWSER_DIM E)
               \<and> n \<le> MAX_SCREENSHOTS E)"
    by (simp add: check_bounds_None)
  show ?thesis
  proof (cases "check_bounds E wt [bw, bh] n = Inr None")
    case False
    then obtain bad where bad: "check_bounds E wt [bw, bh] n = Inr (Some bad)" "status_code bad = 400"
      using check_bounds_pair [of E wt bw bh n] by blast
    then have "returned_status (scrape E r w) = Some 400"
      by (simp add: eq vals returned_status_def)
    with False inrange show ?thesis by simp
  next
    case True
    have "returned_status (scrape E r w) \<noteq> Some 400"
    proof (cases "negotiate_format r")
      case (Inl bad)
      then obtain msg where "bad = jsonify msg 406"
        by (auto dest: negotiate_format_Inl)
      with Inl True show ?thesis
        by (simp add: eq vals returned_status_def jsonify_def)
    next
      case (Inr fmt)
      show ?thesis
      proof (cases "fst (dispatch E u wt fmt n [bw, bh] w1)")
        case (Inl e)
        with Inr True show ?thesis
          by (simp add: eq vals returned_status_def)
      next
        case resp: (Inr resp)
        from dispatch_cases [OF resp] have "status_code resp \<noteq> 400"
          by (auto simp: jsonify_def)
        with resp Inr True show ?thesis
          by (simp add: eq vals returned_status_def)
      qed
    qed
    with True inrange show ?thesis by simp
  qed
qed

text \<open>
  C6. Take a request whose bearer token is accepted, whose URL is present and judged
  safe, and which gives \<open>wait\<close>, a two-element \<open>browser_dim\<close> and \<open>max_screenshots\<close>. It
  is answered with status 400 exactly if \<open>wait\<close> lies outside \<open>[0, MAX_WAIT]\<close>, or an axis
  of \<open>browser_dim\<close> lies outside its minimum and maximum, or \<open>max_screenshots\<close> exceeds
  \<open>MAX_SCREENSHOTS\<close>; every bound is inclusive. So \<open>wait = -1\<close> and
  \<open>wait = MAX_WAIT + 1\<close> give 400, an axis one below its minimum or one above its
  maximum gives 400, and \<open>max_screenshots = MAX_SCREENSHOTS + 1\<close> gives 400; and, the
  configured ranges being non-empty, \<open>wait\<close> at 0 or \<open>MAX_WAIT\<close>, axes at their
  minimum or maximum and \<open>max_screenshots = MAX_SCREENSHOTS\<close> are not answered with 400.
\<close>

theorem C6_bounds_are_inclusive:
  assumes "check_auth E r = Inr None"
    and "url r = Some u" and "u \<noteq> []"
    and "fst (url_is_safe E u None w) = Inr True"
    and "wait r = Some wt" and "browser_dim r = Some [bw, bh]" and "max_screenshots r = Some n"
  shows "((returned_status (scrape E r w) = Some 400) =
           (\<not> (0 \<le> wt \<and> wt \<le> MAX_WAIT E
               \<and> fst (MIN_BROWSER_DIM E) \<le> bw \<and> bw \<le> fst (MAX_BROWSER_DIM E)
               \<and> snd (MIN_BROWSER_DIM E) \<le> bh \<and> bh \<le> snd (MAX_BROWSER_DIM E)
               \<and> n \<le> MAX_SCREENSHOTS E)))
       \<and> (wt = - 1 \<or> wt = MAX_WAIT E + 1 \<longrightarrow> returned_status (scrape E r w) = Some 400)
       \<and> (bw = fst (MIN_BROWSER_DIM E) - 1 \<or> bw = fst (MAX_BROWSER_DIM E) + 1
            \<or> bh = snd (MIN_BROWSER_DIM E) - 1 \<or> bh = snd (MAX_BROWSER_DIM E) + 1
            \<longrightarrow> returned_status (scrape E r w) = Some 400)
       \<and> (n = MAX_SCREENSHOTS E + 1 \<longrightarrow> returned_status (scrape E r w) = Some 400)
       \<and> (0 \<le> MAX_WAIT E \<and> fst (MIN_BROWSER_DIM E) \<le> fst (MAX_BROWSER_DIM E)
            \<and> snd (MIN_BROWSER_DIM E) \<le> snd (MAX_BROWSER_DIM E)
            \<and> (wt = 0 \<or> wt = MAX_WAIT E)
            \<and> (bw = fst (MIN_BROWSER_DIM E) \<or> bw = fst (MAX_BROWSER_DIM E))
            \<and> (bh = snd (MIN_BROWSER_DIM E) \<or> bh = snd (MAX_BROWSER_DIM E))
            \<and> n = MAX_SCREENSHOTS E
            \<longrightarrow> returned_status (scrape E r w) \<noteq> Some 400)"
  unfolding scrape_status_400_iff [OF assms]
  by (intro conjI impI) linarith+


theorem C6_bounds_are_inclusive_witness:
  "returned_status (scrape demo_env (bounds_request (- 1) 1280 2000 5) empty_world) = Some 400
   \<and> returned_status (scrape demo_env (bounds_request 11 1280 2000 5) empty_world) = Some 400
   \<and> returned_status (scrape demo_env (bounds_request 0 100 100 5) empty_world) \<noteq> Some 400
   \<and> returned_status (scrape demo_env (bounds_request 10 2400 4000 5) empty_world) \<noteq> Some 400
   \<and> returned_status (scrape demo_env (bounds_request 1 99 2000 5) empty_world) = Some 400
   \<and> returned_status (scrape demo_env (bounds_request 1 1280 4001 5) empty_world) = Some 400
   \<and> returned_status (scrape demo_env (bounds_request 1 1280 2000 6) empty_world) = Some 400"
proof -
  have safe: "fst (url_is_safe demo_env ''http://example.com/'' None empty_world) = Inr True"
    by (simp add: demo_url_is_safe(1))
  have inst: "(returned_status (scrape demo_env (bounds_request wt bw bh n) empty_world) = Some 400) =
           (\<not> (0 \<le> wt \<and> wt \<le> MAX_WAIT demo_env
               \<and> fst (MIN_BROWSER_DIM demo_env) \<le> bw \<and> bw \<le> fst (MAX_BROWSER_DIM demo_env)
               \<and> snd (MIN_BROWSER_DIM demo_env) \<le> bh \<and> bh \<le> snd (MAX_BROWSER_DIM demo_env)
               \<and> n \<le> MAX_SCREENSHOTS demo_env))" for wt bw bh n
    by (rule C6_bounds_are_inclusive
              [of demo_env "bounds_request wt bw bh n" "''http://example.com/''" empty_world wt bw bh n,
               THEN conjunct1])
       (simp_all add: demo_check_auth safe bounds_request_def demo_request_def)
  show ?thesis
    unfolding inst by (simp add: demo_env_simps)
qed

text \<open>
  C10. A request without an \<open>Accept\<close> header is never answered with status 406: the
  header counts as \<open>image/jpeg\<close>, every dispatch such a request leads to asks the
  worker for \<open>jpeg\<close>, and once the token, the URL and the bounds have been accepted the
  worker is dispatched.
\<close>

theorem C10_missing_accept_defaults_to_jpeg:
  assumes "accept r = None"
  shows "returned_status (scrape E r w) \<noteq> Some 406
       \<and> negotiate_format r = Inr ''jpeg''
       \<and> (\<forall>u wt fmt n dim. Dispatch u wt fmt n dim \<in> set (events_since w (snd (scrape E r w)))
             \<longrightarrow> fmt = ''jpeg'')
       \<and> (\<forall>u. check_auth E r = Inr None \<and> url r = Some u \<and> u \<noteq> []
              \<and> fst (url_is_safe E u None w) = Inr True
              \<and> check_bounds E (case wait r of None \<Rightarrow> DEFAULT_WAIT E | Some x \<Rightarrow> x)
                    (case browser_dim r of None \<Rightarrow> DEFAULT_BROWSER_DIM E | Some x \<Rightarrow> x)
                    (case max_screenshots r of None \<Rightarrow> DEFAULT_SCREENSHOTS E | Some x \<Rightarrow> x) = Inr None
            \<longrightarrow> Dispatch u (case wait r of None \<Rightarrow> DEFAULT_WAIT E | Some x \<Rightarrow> x) ''jpeg''
                    (case max_screenshots r of None \<Rightarrow> DEFAULT_SCREENSHOTS E | Some x \<Rightarrow> x)
                    (case browser_dim r of None \<Rightarrow> DEFAULT_BROWSER_DIM E | Some x \<Rightarrow> x)
                  \<in> set (events_since w (snd (scrape E r w))))"
proof -
  have jpeg: "negotiate_format r = Inr ''jpeg''"
    using assms by (rule demo_negotiate)
  have no406: "returned_status (scrape E r w) \<noteq> Some 406"
  proof (cases "fst (scrape E r w)")
    case (Inl e)
    then show ?thesis by (simp add: returned_status_def)
  next
    case (Inr resp)
    from scrape_cases [OF Inr] jpeg have "status_code resp \<noteq> 406"
      by (auto simp: jsonify_def)
    with Inr show ?thesis by (simp add: returned_status_def)
  qed
  have fmt: "fmt = ''jpeg''"
    if "Dispatch u wt fmt n dim \<in> set (events_since w (snd (scrape E r w)))" for u wt fmt n dim
    using scrape_events [of w E r] that jpeg by auto
  have goes: "Dispatch u (case wait r of None \<Rightarrow> DEFAULT_WAIT E | Some x \<Rightarrow> x) ''jpeg''
                    (case max_screenshots r of None \<Rightarrow> DEFAULT_SCREENSHOTS E | Some x \<Rightarrow> x)
                    (case browser_dim r of None \<Rightarrow> DEFAULT_BROWSER_DIM E | Some x \<Rightarrow> x)
                  \<in> set (events_since w (snd (scrape E r w)))"
    if a: "check_auth E r = Inr None" and u: "url r = Some u" "u \<noteq> []"
      and s: "fst (url_is_safe E u None w) = Inr True"
      and b: "check_bounds E (case wait r of None \<Rightarrow> DEFAULT_WAIT E | Some x \<Rightarrow> x)
                    (case browser_dim r of None \<Rightarrow> DEFAULT_BROWSER_DIM E | Some x \<Rightarrow> x)
                    (case max_screenshots r of None \<Rightarrow> DEFAULT_SCREENSHOTS E | Some x \<Rightarrow> x) = Inr None"
    for u
  proof -
    obtain w1 where s1: "url_is_safe E u None w = (Inr True, w1)"
      using s by (cases "url_is_safe E u None w") auto
    have w1: "w1 = w \<or> (\<exists>h. w1 = emit (Resolve h) w)"
      using url_is_safe_world [of E u None w] s1 by auto
    let ?d = "Dispatch u (case wait r of None \<Rightarrow> DEFAULT_WAIT E | Some x \<Rightarrow> x) ''jpeg''
                    (case max_screenshots r of None \<Rightarrow> DEFAULT_SCREENSHOTS E | Some x \<Rightarrow> x)
                    (case browser_dim r of None \<Rightarrow> DEFAULT_BROWSER_DIM E | Some x \<Rightarrow> x)"
    have "trace (snd (scrape E r w)) = trace w1 @ [?d]"
      by (simp add: scrape_accepted [OF a u s1] Let_def b jpeg)
    with w1 have "events_since w (snd (scrape E r w)) = [?d]
                \<or> (\<exists>h. events_since w (snd (scrape E r w)) = [Resolve h, ?d])"
      by (auto simp: events_since_def emit_def)
    then show ?thesis by auto
  qed
  from jpeg no406 fmt goes show ?thesis by blast
qed

theorem C10_missing_accept_defaults_to_jpeg_witness:
  "accept demo_request = None
   \<and> returned_status (scrape demo_env demo_request empty_world) = Some 200
   \<and> Dispatch ''http://example.com/'' 1 ''jpeg'' 5 [1280, 2000]
        \<in> set (events_since empty_world (snd (scrape demo_env demo_request empty_world)))"
proof -
  have a: "accept demo_request = None"
    by (simp add: demo_request_def)
  have st: "returned_status (scrape demo_env demo_request empty_world) = Some 200"
    unfolding returned_status_def demo_scrape(1) by simp
  have pre: "check_auth demo_env demo_request = Inr None \<and> url demo_request = Some ''http://example.com/''
        \<and> ''http://example.com/'' \<noteq> []
        \<and> fst (url_is_safe demo_env ''http://example.com/'' None empty_world) = Inr True
        \<and> check_bounds demo_env (case wait demo_request of None \<Rightarrow> DEFAULT_WAIT demo_env | Some x \<Rightarrow> x)
              (case browser_dim demo_request of None \<Rightarrow> DEFAULT_BROWSER_DIM demo_env | Some x \<Rightarrow> x)
              (case max_screenshots demo_request of None \<Rightarrow> DEFAULT_SCREENSHOTS demo_env | Some x \<Rightarrow> x) = Inr None"
    by (simp add: demo_check_auth demo_url_is_safe(1) demo_request_def demo_env_simps demo_check_bounds)
  have "Dispatch ''http://example.com/''
          (case wait demo_request of None \<Rightarrow> DEFAULT_WAIT demo_env | Some x \<Rightarrow> x) ''jpeg''
          (case max_screenshots demo_request of None \<Rightarrow> DEFAULT_SCREENSHOTS demo_env | Some x \<Rightarrow> x)
          (case browser_dim demo_request of None \<Rightarrow> DEFAULT_BROWSER_DIM demo_env | Some x \<Rightarrow> x)
        \<in> set (events_since empty_world (snd (scrape demo_env demo_request empty_world)))"
    using C10_missing_accept_defaults_to_jpeg [OF a, of demo_env empty_world] pre by blast
  then have "Dispatch ''http://example.com/'' 1 ''jpeg'' 5 [1280, 2000]
        \<in> set (events_since empty_world (snd (scrape demo_env demo_request empty_world)))"
    by (simp add: demo_request_def demo_env_simps)
  with a st show ?thesis by blast
qed


subsection \<open>The stream: what it emits, what it removes, what escapes\<close>

lemma unlinked_append [simp]: "unlinked (xs @ ys) = unlinked xs @ unlinked ys"
  by (induction xs rule: unlinked.induct) auto

lemma unlinked_map_Unlink [simp]: "unlinked (map Unlink ds) = ds"
  by (induction ds) auto

lemma removals_refl: "removals w w []"
  by (simp add: removals_def)

lemma removals_unlinked:
  "removals w w' ds \<Longrightarrow> unlinked (events_since w w') = ds"
  by (simp add: removals_def events_since_def)

lemma unlink_if_exists_cases:
  "unlink_if_exists p w = (Inr (), w) \<and> files w p = None
   \<or> unlink_if_exists p w = (Inl PermissionError, w) \<and> files w p \<noteq> None \<and> p \<in> locked w
   \<or> unlink_if_exists p w = (Inr (), emit (Unlink p) (w\<lparr>files := (files w)(p := None)\<rparr>))
       \<and> files w p \<noteq> None \<and> p \<notin> locked w"
  by (auto simp: unlink_if_exists_def os_path_exists_def os_unlink_def)

lemma unlink_if_exists_removals:
  assumes "removals w0 w ds"
  shows "\<exists>ds'. removals w0 (snd (unlink_if_exists p w)) ds'"
proof -
  consider "snd (unlink_if_exists p w) = w"
    | "files w p \<noteq> None" and "snd (unlink_if_exists p w) = emit (Unlink p) (w\<lparr>files := (files w)(p := None)\<rparr>)"
    using unlink_if_exists_cases [of p w] by auto
  then show ?thesis
  proof cases
    case 1
    with assms show ?thesis by auto
  next
    case 2
    from assms 2(1) have fresh: "p \<notin> set ds" and was: "files w0 p \<noteq> None"
      by (auto simp: removals_def split: if_splits)
    with assms have "removals w0 (emit (Unlink p) (w\<lparr>files := (files w)(p := None)\<rparr>)) (ds @ [p])"
      by (auto simp: removals_def emit_def)
    with 2(2) show ?thesis by auto
  qed
qed

lemma unlink_screenshots_removals:
  "removals w0 w ds \<Longrightarrow> \<exists>ds'. removals w0 (snd (unlink_screenshots ps w)) ds'"
proof (induction ps arbitrary: w ds)
  case Nil
  then show ?case by auto
next
  case (Cons p ps)
  obtain res w1 where step: "unlink_if_exists p w = (res, w1)"
    by (metis surj_pair)
  from unlink_if_exists_removals [OF Cons.prems, of p] step
  obtain ds1 where r1: "removals w0 w1 ds1" by auto
  show ?case
  proof (cases res)
    case (Inl e)
    with step r1 show ?thesis by auto
  next
    case (Inr u)
    with step Cons.IH [OF r1] show ?thesis by simp
  qed
qed

lemma cleanup_removals:
  "removals w0 w ds \<Longrightarrow> \<exists>ds'. removals w0 (cleanup ps w) ds'"
proof (induction ps arbitrary: w ds)
  case Nil
  then show ?case by auto
next
  case (Cons p ps)
  obtain res w1 where step: "unlink_if_exists p w = (res, w1)"
    by (metis surj_pair)
  from unlink_if_exists_removals [OF Cons.prems, of p] step
  obtain ds1 where r1: "removals w0 w1 ds1" by auto
  from Cons.IH [OF r1] step show ?case
    by (cases res) auto
qed

text \<open>The world after the stream is \<open>cleanup\<close> applied to the world before it, or to what
  the removal of the screenshots made of it.\<close>

lemma stream_world:
  "snd (stream E c pulls w) = w
   \<or> snd (stream E c pulls w) = cleanup (cleanup_files c) w
   \<or> snd (stream E c pulls w)
        = cleanup (cleanup_files c) (snd (unlink_screenshots (screenshot_files (task c)) w))"
  by (auto simp: stream_def Let_def split: prod.splits option.splits sum.splits)

lemma stream_removals: "\<exists>ds. removals w (snd (stream E c pulls w)) ds"
proof -
  obtain ds1 where "removals w (snd (unlink_screenshots (screenshot_files (task c)) w)) ds1"
    using unlink_screenshots_removals [OF removals_refl] by blast
  then have "\<exists>ds. removals w (cleanup (cleanup_files c) (snd (unlink_screenshots (screenshot_files (task c)) w))) ds"
    by (rule cleanup_removals)
  moreover have "\<exists>ds. removals w (cleanup (cleanup_files c) w) ds"
    using cleanup_removals [OF removals_refl] by blast
  moreover have "\<exists>ds. removals w w ds"
    using removals_refl by blast
  ultimately show ?thesis
    using stream_world [of E c pulls w] by metis
qed

lemma read_file_exn: "read_file fs path = Inl e \<Longrightarrow> is_Exception e"
  by (auto simp: read_file_def split: option.splits)

lemma try_yields_exn: "snd (try_yields E c fs) = Some e \<Longrightarrow> is_Exception e"
  by (auto simp: try_yields_def Let_def split: option.splits sum.splits if_splits
      dest: read_file_exn)

lemma unlink_screenshots_exn:
  "fst (unlink_screenshots ps w) = Inl e \<Longrightarrow> is_Exception e"
proof (induction ps arbitrary: w)
  case Nil
  then show ?case by simp
next
  case (Cons p ps)
  obtain res w1 where step: "unlink_if_exists p w = (res, w1)"
    by (metis surj_pair)
  show ?case
  proof (cases res)
    case (Inl e')
    with step Cons.prems have "e = e'" by simp
    moreover from step Inl have "e' = PermissionError"
      using unlink_if_exists_cases [of p w] by auto
    ultimately show ?thesis by simp
  next
    case (Inr u)
    with step Cons show ?thesis by simp
  qed
qed

lemma stream_escaped: "escaped (fst (stream E c pulls w)) = None"
proof (cases "pulls = 0")
  case True
  then show ?thesis by (simp add: stream_def)
next
  case False
  obtain ys err where ty: "try_yields E c (files w) = (ys, err)"
    by (metis surj_pair)
  obtain res w' where us: "unlink_screenshots (screenshot_files (task c)) w = (res, w')"
    by (metis surj_pair)
  have e1: "is_Exception e" if "err = Some e" for e
    using try_yields_exn [of E c "files w" e] ty that by simp
  have e2: "is_Exception e" if "res = Inl e" for e
    using unlink_screenshots_exn [of "screenshot_files (task c)" w e] us that by simp
  show ?thesis
    using False ty us e1 e2
    by (auto simp: stream_def Let_def split: option.splits sum.splits)
qed



lemma distinct_count_list: "distinct xs \<Longrightarrow> count_list xs p \<le> 1"
  by (induction xs) (auto simp: count_list_0_iff)

lemma scrape_unlinks_nothing: "unlinked (events_since w (snd (scrape E r w))) = []"
  using scrape_events [of w E r] by auto

text \<open>
  C9. The handler removes no file, and one run of the stream removes each path at
  most once, whatever the consumer does and whichever paths are on the two lists it
  goes through; no exception reaches the consumer. Where a path has no file, the
  removal statement of either loop leaves the world as it is and raises nothing. The
  single-screenshot case, where the same path is the stacked image and the raw
  screenshot, is evaluated after the theorem.
\<close>

theorem C9_removed_at_most_once:
  "unlinked (events_since w0 (snd (scrape E r w0))) = []
   \<and> distinct (unlinked (events_since w (snd (stream E c pulls w))))
   \<and> count_list (unlinked (events_since w (snd (stream E c pulls w)))) p \<le> 1
   \<and> escaped (fst (stream E c pulls w)) = None
   \<and> (files w p = None \<longrightarrow>
         unlink_if_exists p w = (Inr (), w)
         \<and> unlink_screenshots [p] w = (Inr (), w)
         \<and> cleanup [p] w = w)"
proof -
  obtain ds where "removals w (snd (stream E c pulls w)) ds"
    using stream_removals by blast
  then have "unlinked (events_since w (snd (stream E c pulls w))) = ds" and "distinct ds"
    by (simp_all add: removals_unlinked) (simp add: removals_def)
  then have d: "distinct (unlinked (events_since w (snd (stream E c pulls w))))"
    by simp
  have absent: "unlink_if_exists p w = (Inr (), w)" if "files w p = None"
    using that by (simp add: unlink_if_exists_def os_path_exists_def)
  from d distinct_count_list [OF d, of p] absent show ?thesis
    by (simp add: scrape_unlinks_nothing stream_escaped)
qed

lemma demo_ext: "get_ext_from_content_type demo_env ''text/html'' = ''.html''"
  by (simp add: get_ext_from_content_type_def str_strip_def is_space_def demo_env_simps)

lemma single_try_yields:
  "try_yields demo_env single_closure (files single_world) =
     ([info_part_header ''Boundary712sAM12MVaJff23NXJ'', ''{status: 200}'',
       main_part_header ''Boundary712sAM12MVaJff23NXJ'' ''.html'' ''text/html'', ''<html></html>'',
       screenshot_part_header ''Boundary712sAM12MVaJff23NXJ'' ''jpeg'', ''IMG-A'',
       final_boundary ''Boundary712sAM12MVaJff23NXJ''], None)"
  by (simp add: try_yields_def single_closure_def single_world_def read_file_def demo_ext
      demo_env_simps str_int_def Let_def)

lemma single_stream:
  "trace (snd (stream demo_env single_closure 100 single_world)) = [Unlink ''/tmp/s1'', Unlink ''/tmp/content'']"
  "files (snd (stream demo_env single_closure 100 single_world)) ''/tmp/s1'' = None"
  "files (snd (stream demo_env single_closure 100 single_world)) ''/tmp/content'' = None"
proof -
  have raw: "unlink_screenshots (screenshot_files (task single_closure)) single_world =
          (Inr (), \<lparr>files = [''/tmp/content'' \<mapsto> ''<html></html>''], locked = {}, trace = [Unlink ''/tmp/s1'']\<rparr>)"
    by (simp add: single_closure_def single_world_def unlink_if_exists_def os_path_exists_def
        os_unlink_def emit_def fun_upd_twist)
  have fin: "cleanup (cleanup_files single_closure)
               \<lparr>files = [''/tmp/content'' \<mapsto> ''<html></html>''], locked = {}, trace = [Unlink ''/tmp/s1'']\<rparr>
             = \<lparr>files = Map.empty, locked = {}, trace = [Unlink ''/tmp/s1'', Unlink ''/tmp/content'']\<rparr>"
    by (simp add: single_closure_def unlink_if_exists_def os_path_exists_def os_unlink_def emit_def)
  have "snd (stream demo_env single_closure 100 single_world)
          = \<lparr>files = Map.empty, locked = {}, trace = [Unlink ''/tmp/s1'', Unlink ''/tmp/content'']\<rparr>"
    by (simp add: stream_def single_try_yields raw fin)
  then show "trace (snd (stream demo_env single_closure 100 single_world)) = [Unlink ''/tmp/s1'', Unlink ''/tmp/content'']"
    and "files (snd (stream demo_env single_closure 100 single_world)) ''/tmp/s1'' = None"
    and "files (snd (stream demo_env single_closure 100 single_world)) ''/tmp/content'' = None"
    by simp_all
qed

theorem C9_removed_at_most_once_witness:
  "screenshot_files (task single_closure) = [''/tmp/s1'']
   \<and> stacked_screenshot single_closure = Some ''/tmp/s1''
   \<and> cleanup_files single_closure = [''/tmp/content'', ''/tmp/s1'']
   \<and> unlinked (events_since single_world (snd (stream demo_env single_closure 100 single_world)))
        = [''/tmp/s1'', ''/tmp/content'']
   \<and> count_list (unlinked (events_since single_world (snd (stream demo_env single_closure 100 single_world))))
        ''/tmp/s1'' \<le> 1
   \<and> files (snd (stream demo_env single_closure 100 single_world)) ''/tmp/s1'' = None
   \<and> unlink_if_exists ''/tmp/s1'' (snd (stream demo_env single_closure 100 single_world))
        = (Inr (), snd (stream demo_env single_closure 100 single_world))"
proof -
  have gone: "files (snd (stream demo_env single_closure 100 single_world)) ''/tmp/s1'' = None"
    by (rule single_stream(2))
  have ev: "unlinked (events_since single_world (snd (stream demo_env single_closure 100 single_world)))
        = [''/tmp/s1'', ''/tmp/content'']"
    by (simp add: events_since_def single_stream(1)) (simp add: single_world_def)
  have c: "screenshot_files (task single_closure) = [''/tmp/s1'']
   \<and> stacked_screenshot single_closure = Some ''/tmp/s1''
   \<and> cleanup_files single_closure = [''/tmp/content'', ''/tmp/s1'']"
    by (simp add: single_closure_def)
  from C9_removed_at_most_once
         [of empty_world demo_env demo_request single_world single_closure 100 "''/tmp/s1''"] gone
  have "count_list (unlinked (events_since single_world (snd (stream demo_env single_closure 100 single_world))))
        ''/tmp/s1'' \<le> 1" by blast
  moreover
  from C9_removed_at_most_once
         [of empty_world demo_env demo_request
             "snd (stream demo_env single_closure 100 single_world)" single_closure 100 "''/tmp/s1''"] gone
  have "unlink_if_exists ''/tmp/s1'' (snd (stream demo_env single_closure 100 single_world))
        = (Inr (), snd (stream demo_env single_closure 100 single_world))" by blast
  ultimately show ?thesis
    using gone ev c by blast
qed






lemma untyped_env_simps:
  "urlparse untyped_env = demo_urlparse"
  "getaddrinfo untyped_env = demo_getaddrinfo"
  "ip_address untyped_env = demo_ip_address"
  "SCRAPER_API_KEYS untyped_env = []"
  "MAX_WAIT untyped_env = 10" "DEFAULT_WAIT untyped_env = 1"
  "MAX_SCREENSHOTS untyped_env = 5" "DEFAULT_SCREENSHOTS untyped_env = 5"
  "MAX_BROWSER_DIM untyped_env = (2400, 4000)" "MIN_BROWSER_DIM untyped_env = (100, 100)"
  "DEFAULT_BROWSER_DIM untyped_env = [1280, 2000]"
  "image_decode untyped_env = demo_image_decode"
  "image_encode untyped_env = demo_image_encode"
  "mkstemp untyped_env fs suffix = ''/tmp/stacked'' @ suffix"
  "json_dumps untyped_env st hs md = ''{status: '' @ str_int st @ ''}''"
  "scrape_task untyped_env u wt fmt n dim fs =
     (Inr ((demo_page u)\<lparr>headers := [(''Server'', ''nginx'')]\<rparr>), snd (demo_scrape_task u wt fmt n dim fs))"
  by (simp_all add: untyped_env_def demo_env_simps)

text \<open>The handler's last step in either deployment, on the worker's three files.\<close>

lemma respond_two_shots:
  assumes "image_decode E = demo_image_decode" and "image_encode E = demo_image_encode"
    and "\<And>fs suffix. mkstemp E fs suffix = ''/tmp/stacked'' @ suffix"
    and "content_file t = Some ''/tmp/content''" and "screenshot_files t = [''/tmp/s1'', ''/tmp/s2'']"
    and "files w ''/tmp/s1'' = Some ''IMG-A''" and "files w ''/tmp/s2'' = Some ''IMG-B''"
  shows "respond E t ''jpeg'' w =
           (Inr (multipart \<lparr>boundary = ''Boundary712sAM12MVaJff23NXJ'', task = t,
                            stacked_screenshot = Some ''/tmp/stacked.jpeg'', image_format = ''jpeg'',
                            cleanup_files = [''/tmp/content'', ''/tmp/stacked.jpeg'']\<rparr>),
            w\<lparr>files := (files w)(''/tmp/stacked.jpeg'' \<mapsto> ''JPEG 200x110 a@0 b@50'')\<rparr>)"
proof -
  have two: "2 \<le> length [''/tmp/s1'', ''/tmp/s2'']"
    by simp
  have opened: "map (Image_open E w) [''/tmp/s1'', ''/tmp/s2'']
          = map Inr [\<lparr>width = 100, height = 50, pixels = ''a''\<rparr>, \<lparr>width = 200, height = 60, pixels = ''b''\<rparr>]"
    by (simp add: Image_open_def assms demo_image_decode_def)
  have idx: "[0..<2] = [0, 1]"
    by (simp add: upt_rec)
  have up: "str_upper ''jpeg'' = ''JPEG''"
    by (simp add: str_upper_def upper_char_def)
  have "stack_images_vertically E [''/tmp/s1'', ''/tmp/s2''] ''jpeg'' w
          = (Inr (Some ''/tmp/stacked.jpeg''),
             w\<lparr>files := (files w)(''/tmp/stacked.jpeg'' \<mapsto> ''JPEG 200x110 a@0 b@50'')\<rparr>)"
    unfolding stack_many [OF two opened, of "''jpeg''"]
    by (simp add: assms idx up demo_image_encode_def str_int_def)
  then show ?thesis
    by (simp add: respond_def assms the_boundary_def multipart_def Let_def)
qed

lemma demo_scrape_full:
  "scrape demo_env demo_request empty_world = (Inr (multipart demo_closure), after_scrape)"
proof -
  have u: "url demo_request = Some ''http://example.com/''" "''http://example.com/'' \<noteq> []"
    by (simp_all add: demo_request_def)
  have eq: "scrape demo_env demo_request empty_world =
              dispatch demo_env ''http://example.com/'' 1 ''jpeg'' 5 [1280, 2000]
                (emit (Resolve ''example.com'') empty_world)"
    by (subst scrape_accepted [OF demo_check_auth u demo_url_is_safe(1)])
       (simp add: demo_request_def demo_env_simps demo_check_bounds demo_negotiate)
  show ?thesis
    unfolding eq
    by (simp add: dispatch_def demo_env_simps demo_scrape_task_def demo_page_def Let_def emit_def
        empty_world_def respond_two_shots lower_keys_def str_lower_def lower_char_def
        demo_closure_def after_scrape_def)
qed

lemma untyped_check_auth: "check_auth untyped_env r = Inr None"
  by (simp add: check_auth_def untyped_env_simps)

lemma untyped_url_is_safe:
  "url_is_safe untyped_env ''http://example.com/'' None w = (Inr True, emit (Resolve ''example.com'') w)"
  by (simp add: url_is_safe_def untyped_env_simps demo_parse_simps
      demo_urlparse_def demo_getaddrinfo_def demo_ip_address_def sockaddr_host_def public_ip_def
      is_private_ip_def default_schemes_def str_lower_def lower_char_def Let_def)

lemma untyped_scrape:
  "scrape untyped_env demo_request empty_world = (Inr (multipart untyped_closure), after_scrape)"
proof -
  have u: "url demo_request = Some ''http://example.com/''" "''http://example.com/'' \<noteq> []"
    by (simp_all add: demo_request_def)
  have b: "check_bounds untyped_env 1 [1280, 2000] 5 = Inr None"
    by (simp add: check_bounds_None untyped_env_simps)
  have eq: "scrape untyped_env demo_request empty_world =
              dispatch untyped_env ''http://example.com/'' 1 ''jpeg'' 5 [1280, 2000]
                (emit (Resolve ''example.com'') empty_world)"
    by (subst scrape_accepted [OF untyped_check_auth u untyped_url_is_safe])
       (simp add: demo_request_def untyped_env_simps b demo_negotiate)
  show ?thesis
    unfolding eq
    by (simp add: dispatch_def untyped_env_simps demo_scrape_task_def demo_page_def Let_def emit_def
        empty_world_def respond_two_shots lower_keys_def str_lower_def lower_char_def
        untyped_closure_def demo_closure_def after_scrape_def)
qed

text \<open>The sibling path: when the stream of the typed page runs to its end, all four files
  are removed, the two screenshots by the loop at the end of the \<open>try\<close> block.\<close>

lemma demo_stream_removes_all:
  "files (snd (stream demo_env demo_closure 100 after_scrape)) = Map.empty"
  "unlinked (events_since after_scrape (snd (stream demo_env demo_closure 100 after_scrape)))
     = [''/tmp/s1'', ''/tmp/s2'', ''/tmp/content'', ''/tmp/stacked.jpeg'']"
proof -
  have ty: "try_yields demo_env demo_closure (files after_scrape) =
     ([info_part_header ''Boundary712sAM12MVaJff23NXJ'', ''{status: 200}'',
       main_part_header ''Boundary712sAM12MVaJff23NXJ'' ''.html'' ''text/html'', ''<html></html>'',
       screenshot_part_header ''Boundary712sAM12MVaJff23NXJ'' ''jpeg'', ''JPEG 200x110 a@0 b@50'',
       final_boundary ''Boundary712sAM12MVaJff23NXJ''], None)"
    by (simp add: try_yields_def demo_closure_def after_scrape_def read_file_def demo_ext
        demo_env_simps str_int_def Let_def)
  have w: "snd (stream demo_env demo_closure 100 after_scrape) =
          \<lparr>files = Map.empty, locked = {},
           trace = trace after_scrape @ [Unlink ''/tmp/s1'', Unlink ''/tmp/s2'', Unlink ''/tmp/content'',
                    Unlink ''/tmp/stacked.jpeg'']\<rparr>"
    unfolding stream_def ty
    by (simp add: demo_closure_def after_scrape_def unlink_if_exists_def os_path_exists_def
        os_unlink_def emit_def fun_upd_twist)
  show "files (snd (stream demo_env demo_closure 100 after_scrape)) = Map.empty"
    by (simp add: w)
  show "unlinked (events_since after_scrape (snd (stream demo_env demo_closure 100 after_scrape)))
     = [''/tmp/s1'', ''/tmp/s2'', ''/tmp/content'', ''/tmp/stacked.jpeg'']"
    by (simp add: w events_since_def)
qed

text \<open>
  C2 at a failing input: the request for \<open>http://example.com/\<close> where the page came
  without a \<open>Content-Type\<close> header. The handler answers with a stream; the stream raises
  \<open>KeyError\<close> after the part \<open>info.json\<close>; nothing reaches the consumer, the content file
  and the stacked image are removed, and the two raw screenshots stay on disk.
\<close>

theorem C2_failed_stream_leaves_raw_screenshots:
  "scrape untyped_env demo_request empty_world = (Inr (multipart untyped_closure), after_scrape)
   \<and> snd (try_yields untyped_env untyped_closure (files after_scrape)) = Some KeyError
   \<and> fst (stream untyped_env untyped_closure 100 after_scrape)
        = \<lparr>emitted = [info_part_header ''Boundary712sAM12MVaJff23NXJ'', ''{status: 200}''], escaped = None\<rparr>
   \<and> screenshot_files (task untyped_closure) = [''/tmp/s1'', ''/tmp/s2'']
   \<and> unlinked (events_since after_scrape (snd (stream untyped_env untyped_closure 100 after_scrape)))
        = [''/tmp/content'', ''/tmp/stacked.jpeg'']
   \<and> files (snd (stream untyped_env untyped_closure 100 after_scrape)) ''/tmp/content'' = None
   \<and> files (snd (stream untyped_env untyped_closure 100 after_scrape)) ''/tmp/stacked.jpeg'' = None
   \<and> files (snd (stream untyped_env untyped_closure 100 after_scrape)) ''/tmp/s1'' = Some ''IMG-A''
   \<and> files (snd (stream untyped_env untyped_closure 100 after_scrape)) ''/tmp/s2'' = Some ''IMG-B''"
proof -
  have ty: "try_yields untyped_env untyped_closure (files after_scrape) =
     ([info_part_header ''Boundary712sAM12MVaJff23NXJ'', ''{status: 200}''], Some KeyError)"
    by (simp add: try_yields_def untyped_closure_def demo_closure_def untyped_env_simps str_int_def Let_def)
  have run: "stream untyped_env untyped_closure 100 after_scrape =
          (\<lparr>emitted = [info_part_header ''Boundary712sAM12MVaJff23NXJ'', ''{status: 200}''], escaped = None\<rparr>,
           \<lparr>files = [''/tmp/s1'' \<mapsto> ''IMG-A'', ''/tmp/s2'' \<mapsto> ''IMG-B''], locked = {},
            trace = trace after_scrape @ [Unlink ''/tmp/content'', Unlink ''/tmp/stacked.jpeg'']\<rparr>)"
    unfolding stream_def ty
    by (simp add: untyped_closure_def demo_closure_def after_scrape_def unlink_if_exists_def
        os_path_exists_def os_unlink_def emit_def fun_upd_twist)
  have "screenshot_files (task untyped_closure) = [''/tmp/s1'', ''/tmp/s2'']"
    by (simp add: untyped_closure_def demo_closure_def)
  then show ?thesis
    by (simp add: untyped_scrape ty run events_since_def)
qed


end
